theory Spec2Isabelle
  imports Complex_Main "HOL-Library.Char_ord" "HOL-Library.List_Lexorder"
begin

section \<open>Data model\<close>

text \<open>
  Python's floats are \<^typ>\<open>real\<close> numbers. The tax engine, the position valuation and the
  ledger of the database manager are written in the arithmetic of the reals; the calculator
  takes the rounding of each operation as a parameter (section Rounding). Infinities and
  NaN are outside the model. Every Python division is written with \<open>py_div\<close>, so that a
  zero divisor is the error value the interpreter would raise.
\<close>

datatype error = ZeroDivisionError | KeyError | ValueError

definition py_div :: "real \<Rightarrow> real \<Rightarrow> error + real" where
  "py_div a b = (if b = 0 then Inl ZeroDivisionError else Inr (a / b))"

text \<open>Sequencing: an exception raised by the first computation ends the second.\<close>

definition bind_err :: "error + 'a \<Rightarrow> ('a \<Rightarrow> error + 'b) \<Rightarrow> error + 'b" where
  "bind_err m f = (case m of Inl e \<Rightarrow> Inl e | Inr x \<Rightarrow> f x)"

text \<open>
  \<^verbatim>\<open>models.Transaction\<close>. The fields \<^verbatim>\<open>id\<close> and \<^verbatim>\<open>notes\<close> are called \<open>tx_id\<close> and
  \<open>tx_notes\<close> here; the time stamps are left out. The \<open>transaction_type\<close> is kept as a
  string: the code compares it with \<^verbatim>\<open>'ACHAT'\<close> and \<^verbatim>\<open>'VENTE'\<close>.
\<close>

record Transaction =
  ticker :: string
  company_name :: string
  transaction_type :: string
  quantity :: real
  price_per_share :: real
  transaction_date :: string
  total_cost :: real
  fees :: real
  tx_notes :: "string option"
  tx_id :: "int option"

text \<open>
  The dataclass constructor followed by \<^verbatim>\<open>__post_init__\<close>: a \<open>total_cost\<close> of 0 is
  replaced by the derived amount. (The \<^verbatim>\<open>ValueError\<close> for another transaction type is not
  part of this model: only the two legal types are built with it.)
\<close>

definition Transaction_init ::
  "string \<Rightarrow> string \<Rightarrow> string \<Rightarrow> real \<Rightarrow> real \<Rightarrow> string \<Rightarrow> real \<Rightarrow> real \<Rightarrow> Transaction" where
  "Transaction_init tk cn ty q p d tc f =
     \<lparr>ticker = tk, company_name = cn, transaction_type = ty, quantity = q,
      price_per_share = p, transaction_date = d,
      total_cost = (if tc = 0 then (if ty = ''ACHAT'' then q * p + f else q * p - f) else tc),
      fees = f, tx_notes = None, tx_id = None\<rparr>"

text \<open>\<^verbatim>\<open>calculator.RealizedGainLoss\<close>; its \<^verbatim>\<open>ticker\<close> field is \<open>rgl_ticker\<close> here.\<close>

record RealizedGainLoss =
  rgl_ticker :: string
  quantity_sold :: real
  sell_price :: real
  average_buy_price :: real
  total_gain_loss :: real
  gain_loss_percent :: real
  sell_date :: string
  buy_transactions_used :: "int option list"

section \<open>Rounding\<close>

text \<open>
  The loops of the calculator branch on the results of subtractions, and a result that is
  rounded can fall on the other side of a comparison. Its arithmetic is therefore written
  with a rounding function \<open>rnd\<close> applied to the result of every operation: with \<open>\<lambda>x. x\<close>
  it is the arithmetic of the reals, with \<open>fl\<close> that of Python's floats.

  \<open>fl\<close> rounds to the nearest number with a significand of 53 bits, ties to the even
  significand (binary64). \<open>ulp_of\<close> finds the spacing \<open>u\<close> with \<open>2 ^ 52 \<le> x / u < 2 ^ 53\<close>
  by halving or doubling, at most \<open>fuel\<close> times, which covers the exponents of binary64;
  overflow and subnormal numbers are not modelled.
\<close>

definition round_even :: "real \<Rightarrow> int" where
  "round_even x =
     (let f = \<lfloor>x\<rfloor>; d = x - of_int f
      in if d < 1 / 2 then f else if 1 / 2 < d then f + 1 else if even f then f else f + 1)"

fun ulp_of :: "nat \<Rightarrow> real \<Rightarrow> real \<Rightarrow> real" where
  "ulp_of fuel x u =
     (if fuel = 0 then u
      else if 2 ^ 53 \<le> x then ulp_of (fuel - 1) (x / 2) (u * 2)
      else if x < 2 ^ 52 then ulp_of (fuel - 1) (x * 2) (u / 2)
      else u)"

declare ulp_of.simps [simp del]

definition fl :: "real \<Rightarrow> real" where
  "fl x = (if x = 0 then 0
           else let u = ulp_of 1200 \<bar>x\<bar> 1 in of_int (round_even (x / u)) * u)"

text \<open>Python's \<^verbatim>\<open>sum\<close>: the additions from the left, starting from 0.\<close>

definition py_sum :: "(real \<Rightarrow> real) \<Rightarrow> real list \<Rightarrow> real" where
  "py_sum rnd xs = foldl (\<lambda>acc x. rnd (acc + x)) 0 xs"

section \<open>Realized gains, FIFO\<close>

text \<open>
  The \<^verbatim>\<open>for buy_tx in buy_transactions\<close> loop of \<open>calculate_realized_pv_fifo\<close>. The state is
  \<open>(total_buy_cost, quantity_sold, transactions_used)\<close>; the \<^verbatim>\<open>break\<close> returns it.
\<close>

fun fifo_loop ::
  "(real \<Rightarrow> real) \<Rightarrow> real \<Rightarrow> Transaction list \<Rightarrow> real \<times> real \<times> int option list
     \<Rightarrow> error + (real \<times> real \<times> int option list)" where
  "fifo_loop rnd quantity_to_sell [] st = Inr st"
| "fifo_loop rnd quantity_to_sell (buy_tx # rest) (total_buy_cost, qsold, used) =
     (if qsold \<ge> quantity_to_sell then Inr (total_buy_cost, qsold, used)
      else
        let quantity_from_this_buy = min (quantity buy_tx) (rnd (quantity_to_sell - qsold)) in
        case map_sum id rnd (py_div (total_cost buy_tx) (quantity buy_tx)) of
          Inl e \<Rightarrow> Inl e
        | Inr cost_per_share \<Rightarrow>
            fifo_loop rnd quantity_to_sell rest
              (rnd (total_buy_cost + rnd (quantity_from_this_buy * cost_per_share)),
               rnd (qsold + quantity_from_this_buy),
               used @ [tx_id buy_tx]))"

definition calculate_realized_pv_fifo ::
  "(real \<Rightarrow> real) \<Rightarrow> Transaction list \<Rightarrow> Transaction \<Rightarrow> error + RealizedGainLoss" where
  "calculate_realized_pv_fifo rnd buy_transactions sell_transaction =
     (case fifo_loop rnd (quantity sell_transaction) buy_transactions (0, 0, []) of
        Inl e \<Rightarrow> Inl e
      | Inr (total_buy_cost, qsold, used) \<Rightarrow>
          (case (if qsold > 0 then map_sum id rnd (py_div total_buy_cost qsold) else Inr 0) of
             Inl e \<Rightarrow> Inl e
           | Inr avg \<Rightarrow>
               let sell_amount = total_cost sell_transaction;
                   total_pv = rnd (sell_amount - total_buy_cost)
               in (case (if total_buy_cost > 0
                         then map_sum id (\<lambda>x. rnd (rnd x * 100)) (py_div total_pv total_buy_cost)
                         else Inr 0) of
                     Inl e \<Rightarrow> Inl e
                   | Inr pv_percent \<Rightarrow>
                       Inr \<lparr>rgl_ticker = ticker sell_transaction,
                            quantity_sold = qsold,
                            sell_price = price_per_share sell_transaction,
                            average_buy_price = avg,
                            total_gain_loss = total_pv,
                            gain_loss_percent = pv_percent,
                            sell_date = transaction_date sell_transaction,
                            buy_transactions_used = used\<rparr>)))"

text \<open>
  \<open>_update_remaining_buys\<close>: the loop state is \<open>(remaining, quantity_to_remove)\<close>. The
  reduced lot is a new \<^verbatim>\<open>Transaction\<close>, so it passes through \<^verbatim>\<open>__post_init__\<close>
  (\<open>post_init\<close>): a wrong type raises, a \<open>total_cost\<close> of 0 is recomputed. The comparison
  \<^verbatim>\<open>buy_tx.quantity > quantity_to_remove\<close> has no tolerance, and \<open>quantity_to_remove\<close> is the
  rounded result of the subtractions before it.
\<close>

definition post_init :: "(real \<Rightarrow> real) \<Rightarrow> Transaction \<Rightarrow> error + Transaction" where
  "post_init rnd t =
     (if transaction_type t \<noteq> ''ACHAT'' \<and> transaction_type t \<noteq> ''VENTE'' then Inl ValueError
      else if total_cost t = 0 then
        (if transaction_type t = ''ACHAT''
         then Inr (t\<lparr>total_cost := rnd (rnd (quantity t * price_per_share t) + fees t)\<rparr>)
         else Inr (t\<lparr>total_cost := rnd (rnd (quantity t * price_per_share t) - fees t)\<rparr>))
      else Inr t)"

fun urb_loop ::
  "(real \<Rightarrow> real) \<Rightarrow> Transaction list \<Rightarrow> Transaction list \<times> real
     \<Rightarrow> error + (Transaction list \<times> real)" where
  "urb_loop rnd [] st = Inr st"
| "urb_loop rnd (buy_tx # rest) (remaining, quantity_to_remove) =
     (if quantity_to_remove \<le> 0
      then urb_loop rnd rest (remaining @ [buy_tx], quantity_to_remove)
      else if quantity buy_tx > quantity_to_remove then
        (let left = rnd (quantity buy_tx - quantity_to_remove) in
         case map_sum id rnd (py_div (rnd (total_cost buy_tx * left)) (quantity buy_tx)) of
           Inl e \<Rightarrow> Inl e
         | Inr new_cost \<Rightarrow>
            (case map_sum id rnd (py_div (rnd (fees buy_tx * left)) (quantity buy_tx)) of
               Inl e \<Rightarrow> Inl e
             | Inr new_fees \<Rightarrow>
                (case post_init rnd (buy_tx\<lparr>quantity := left,
                                            total_cost := new_cost, fees := new_fees\<rparr>) of
                   Inl e \<Rightarrow> Inl e
                 | Inr updated_tx \<Rightarrow> urb_loop rnd rest (remaining @ [updated_tx], 0))))
      else urb_loop rnd rest (remaining, rnd (quantity_to_remove - quantity buy_tx)))"

definition update_remaining_buys ::
  "(real \<Rightarrow> real) \<Rightarrow> Transaction list \<Rightarrow> real \<Rightarrow> error + Transaction list" where
  "update_remaining_buys rnd buy_transactions qsold =
     map_sum id fst (urb_loop rnd buy_transactions ([], qsold))"

text \<open>
  \<open>calculate_all_realized_pv\<close>: the loop over the transactions sorted by date (Python's
  \<^verbatim>\<open>sorted\<close> is stable, as \<^const>\<open>sort_key\<close> is), with state
  \<open>(realized_pvs, remaining_buys)\<close>. The function returns \<open>realized_pvs\<close> only.
\<close>

fun all_pv_loop ::
  "(real \<Rightarrow> real) \<Rightarrow> Transaction list \<Rightarrow> RealizedGainLoss list \<times> Transaction list
     \<Rightarrow> error + (RealizedGainLoss list \<times> Transaction list)" where
  "all_pv_loop rnd [] st = Inr st"
| "all_pv_loop rnd (tx # rest) (realized_pvs, remaining_buys) =
     (if transaction_type tx = ''ACHAT''
      then all_pv_loop rnd rest (realized_pvs, remaining_buys @ [tx])
      else if transaction_type tx = ''VENTE'' then
        (case calculate_realized_pv_fifo rnd remaining_buys tx of
           Inl e \<Rightarrow> Inl e
         | Inr pv \<Rightarrow>
            (case update_remaining_buys rnd remaining_buys (quantity tx) of
               Inl e \<Rightarrow> Inl e
             | Inr remaining_buys' \<Rightarrow>
                 all_pv_loop rnd rest (realized_pvs @ [pv], remaining_buys')))
      else all_pv_loop rnd rest (realized_pvs, remaining_buys))"

definition calculate_all_realized_pv ::
  "(real \<Rightarrow> real) \<Rightarrow> Transaction list \<Rightarrow> error + RealizedGainLoss list" where
  "calculate_all_realized_pv rnd transactions =
     map_sum id fst (all_pv_loop rnd (sort_key transaction_date transactions) ([], []))"

section \<open>Lot ledger of the database manager\<close>

text \<open>The dictionaries \<^verbatim>\<open>{'quantity': ..., 'cost': ...}\<close> of \<open>_calculate_position_cost\<close>.\<close>

record Lot =
  lot_quantity :: real
  lot_cost :: real

text \<open>
  The \<^verbatim>\<open>while quantity_to_sell > 0 and lots\<close> loop, on the state
  \<open>(quantity_to_sell, lots)\<close>; \<^verbatim>\<open>lots.pop(0)\<close> is the tail, and the update of
  \<^verbatim>\<open>lots[0]\<close> in place is a new head.
\<close>

function sell_loop :: "real \<times> Lot list \<Rightarrow> error + (real \<times> Lot list)" where
  "sell_loop (quantity_to_sell, lots) =
     (if quantity_to_sell > 0 \<and> lots \<noteq> [] then
        (case lots of
           [] \<Rightarrow> Inr (quantity_to_sell, lots)
         | lot # rest \<Rightarrow>
            if lot_quantity lot \<le> quantity_to_sell + 1 / 10 ^ 9
            then sell_loop (quantity_to_sell - lot_quantity lot, rest)
            else
              (case py_div quantity_to_sell (lot_quantity lot) of
                 Inl e \<Rightarrow> Inl e
               | Inr proportion \<Rightarrow>
                   sell_loop (0, lot\<lparr>lot_cost := lot_cost lot - lot_cost lot * proportion,
                                      lot_quantity := lot_quantity lot - quantity_to_sell\<rparr> # rest)))
      else Inr (quantity_to_sell, lots))"
  by pat_completeness auto
termination
  by (relation "measure (\<lambda>(q, lots). 2 * length lots + (if q > 0 then 1 else 0))") auto

declare sell_loop.simps [simp del]

fun position_loop :: "Transaction list \<Rightarrow> Lot list \<Rightarrow> error + Lot list" where
  "position_loop [] lots = Inr lots"
| "position_loop (tx # rest) lots =
     (if transaction_type tx = ''ACHAT''
      then position_loop rest (lots @ [\<lparr>lot_quantity = quantity tx, lot_cost = total_cost tx\<rparr>])
      else if transaction_type tx = ''VENTE'' then
        (case sell_loop (quantity tx, lots) of
           Inl e \<Rightarrow> Inl e
         | Inr (q, lots') \<Rightarrow> position_loop rest lots')
      else position_loop rest lots)"

definition calculate_position_cost :: "Transaction list \<Rightarrow> error + (real \<times> real)" where
  "calculate_position_cost transactions =
     map_sum id (\<lambda>lots. (sum_list (map lot_quantity lots), sum_list (map lot_cost lots)))
       (position_loop transactions [])"

section \<open>Position valuation\<close>

text \<open>\<^verbatim>\<open>models.Position\<close>; the fields shared with \<^verbatim>\<open>Transaction\<close> carry the prefix \<open>pos_\<close>.\<close>

record Position =
  pos_ticker :: string
  pos_company_name :: string
  pos_quantity :: real
  pos_average_buy_price :: real
  total_invested :: real
  current_price :: real
  current_value :: real
  unrealized_pnl :: real
  unrealized_pnl_percent :: real

definition update_current_values :: "Position \<Rightarrow> real \<Rightarrow> error + Position" where
  "update_current_values self price =
     (let s1 = self\<lparr>current_price := price\<rparr>;
          s2 = s1\<lparr>current_value := pos_quantity s1 * price\<rparr>;
          s3 = s2\<lparr>unrealized_pnl := current_value s2 - total_invested s2\<rparr>
      in if total_invested s3 > 0
         then bind_err (py_div (unrealized_pnl s3) (total_invested s3))
                (\<lambda>r. Inr (s3\<lparr>unrealized_pnl_percent := r * 100\<rparr>))
         else Inr (s3\<lparr>unrealized_pnl_percent := 0\<rparr>))"

section \<open>Tax engine\<close>

text \<open>The constants of \<^verbatim>\<open>config.py\<close> that \<^verbatim>\<open>tax_calculator.py\<close> imports.\<close>

definition FLAT_TAX_RATE :: real where "FLAT_TAX_RATE = 0.30"
definition INCOME_TAX_RATE :: real where "INCOME_TAX_RATE = 0.128"
definition SOCIAL_TAX_RATE :: real where "SOCIAL_TAX_RATE = 0.172"
definition CSG_DEDUCTIBLE_RATE :: real where "CSG_DEDUCTIBLE_RATE = 0.068"
definition DIVIDEND_ALLOWANCE_RATE :: real where "DIVIDEND_ALLOWANCE_RATE = 0.40"

text \<open>
  \<^verbatim>\<open>TaxResult\<close>. The \<^verbatim>\<open>breakdown\<close> dictionary is an association list in the order of
  the dictionary display; \<open>dict_get\<close> is \<^verbatim>\<open>d[k]\<close>.
\<close>

record TaxResult =
  gross_amount :: real
  tax_amount :: real
  net_amount :: real
  breakdown :: "(string \<times> real) list"

definition dict_get :: "(string \<times> real) list \<Rightarrow> string \<Rightarrow> error + real" where
  "dict_get d k = (case map_of d k of None \<Rightarrow> Inl KeyError | Some v \<Rightarrow> Inr v)"

definition calculate_pfu_dividend :: "real \<Rightarrow> TaxResult" where
  "calculate_pfu_dividend gross_dividend =
     (let income_tax = gross_dividend * INCOME_TAX_RATE;
          social_tax = gross_dividend * SOCIAL_TAX_RATE;
          total_tax = income_tax + social_tax;
          net = gross_dividend - total_tax;
          csg = gross_dividend * CSG_DEDUCTIBLE_RATE
      in \<lparr>gross_amount = gross_dividend, tax_amount = total_tax, net_amount = net,
          breakdown = [(''impot_revenu'', income_tax),
                       (''prelevements_sociaux'', social_tax),
                       (''csg_deductible'', csg),
                       (''taux_effectif'', FLAT_TAX_RATE)]\<rparr>)"

definition calculate_pfu_capital_gain :: "real \<Rightarrow> TaxResult" where
  "calculate_pfu_capital_gain capital_gain = calculate_pfu_dividend capital_gain"

text \<open>
  The last entry of the breakdown, \<^verbatim>\<open>(total_tax / gross_dividend) * 100\<close>, divides by the
  gross amount with no guard.
\<close>

definition calculate_progressive_tax_dividend :: "real \<Rightarrow> real \<Rightarrow> error + TaxResult" where
  "calculate_progressive_tax_dividend gross_dividend marginal_tax_rate =
     (let taxable_amount = gross_dividend * (1 - DIVIDEND_ALLOWANCE_RATE);
          income_tax = taxable_amount * (marginal_tax_rate / 100);
          social_tax = gross_dividend * SOCIAL_TAX_RATE;
          total_tax = income_tax + social_tax;
          net = gross_dividend - total_tax;
          csg = gross_dividend * CSG_DEDUCTIBLE_RATE
      in bind_err (py_div total_tax gross_dividend)
           (\<lambda>ratio.
              Inr \<lparr>gross_amount = gross_dividend, tax_amount = total_tax, net_amount = net,
                   breakdown = [(''abattement_40pct'', gross_dividend * DIVIDEND_ALLOWANCE_RATE),
                                (''base_imposable'', taxable_amount),
                                (''impot_revenu'', income_tax),
                                (''prelevements_sociaux'', social_tax),
                                (''csg_deductible'', csg),
                                (''taux_marginal'', marginal_tax_rate),
                                (''taux_effectif'', ratio * 100)]\<rparr>))"

text \<open>
  The result of \<open>compare_pfu_vs_progressive\<close>: the two inner dictionaries are \<open>Regime\<close>
  records. The letter e with grave accent of \<^verbatim>\<open>Bareme\<close> is its two UTF-8 bytes.
\<close>

record Regime =
  net :: real
  tax :: real
  rate :: real

record Comparison =
  cmp_pfu :: Regime
  cmp_progressive :: Regime
  difference :: real
  best_option :: string
  savings :: real

definition Bareme :: string where
  "Bareme = ''Bar'' @ [CHR 0xC3, CHR 0xA8] @ ''me''"

definition compare_pfu_vs_progressive :: "real \<Rightarrow> real \<Rightarrow> error + Comparison" where
  "compare_pfu_vs_progressive gross_dividend marginal_tax_rate =
     (let pfu_result = calculate_pfu_dividend gross_dividend in
      bind_err (calculate_progressive_tax_dividend gross_dividend marginal_tax_rate)
        (\<lambda>progressive_result.
           let diff = tax_amount pfu_result - tax_amount progressive_result;
               better_option = (if diff > 0 then ''PFU'' else Bareme @ '' progressif'')
           in bind_err (dict_get (breakdown progressive_result) ''taux_effectif'')
                (\<lambda>eff.
                   Inr \<lparr>cmp_pfu = \<lparr>net = net_amount pfu_result, tax = tax_amount pfu_result,
                                    rate = 30\<rparr>,
                        cmp_progressive = \<lparr>net = net_amount progressive_result,
                                            tax = tax_amount progressive_result, rate = eff\<rparr>,
                        difference = \<bar>diff\<bar>,
                        best_option = better_option,
                        savings = (if diff \<noteq> 0 then \<bar>diff\<bar> else 0)\<rparr>)))"

text \<open>
  The dictionary of \<open>calculate_annual_tax_summary\<close>: the keys \<^verbatim>\<open>bareme_progressif\<close> and
  \<^verbatim>\<open>comparaison\<close> exist only when a marginal rate is given. The fields of the progressive
  block and of the comparison block carry the prefixes \<open>b_\<close> and \<open>c_\<close>.
\<close>

record Revenus =
  dividendes_bruts :: real
  plus_values :: real
  moins_values :: real
  plus_values_nettes :: real
  total_brut :: real

record PfuBlock =
  impot_dividendes :: real
  impot_pv :: real
  total_impot :: real
  total_net :: real
  csg_deductible :: real

record BaremeBlock =
  b_impot_dividendes :: real
  b_impot_pv :: real
  b_total_impot :: real
  b_total_net :: real
  tmi :: real

record Comparaison =
  c_difference :: real
  meilleure_option :: string
  economie :: real

record Summary =
  revenus :: Revenus
  pfu :: PfuBlock
  bareme_progressif :: "BaremeBlock option"
  comparaison :: "Comparaison option"

definition calculate_annual_tax_summary ::
  "real \<Rightarrow> real \<Rightarrow> real \<Rightarrow> real option \<Rightarrow> error + Summary" where
  "calculate_annual_tax_summary total_dividends total_capital_gains total_capital_losses
       marginal_tax_rate =
     (let net_capital_gains = max 0 (total_capital_gains - total_capital_losses);
          dividend_tax = calculate_pfu_dividend total_dividends;
          capital_gain_tax = calculate_pfu_capital_gain net_capital_gains;
          total_tax_pfu = tax_amount dividend_tax + tax_amount capital_gain_tax;
          total_net_pfu = net_amount dividend_tax + net_amount capital_gain_tax
      in bind_err (dict_get (breakdown dividend_tax) ''csg_deductible'')
       (\<lambda>csg_div. bind_err (dict_get (breakdown capital_gain_tax) ''csg_deductible'')
       (\<lambda>csg_pv.
          let summary =
                \<lparr>revenus = \<lparr>dividendes_bruts = total_dividends,
                             plus_values = total_capital_gains,
                             moins_values = total_capital_losses,
                             plus_values_nettes = net_capital_gains,
                             total_brut = total_dividends + net_capital_gains\<rparr>,
                 pfu = \<lparr>impot_dividendes = tax_amount dividend_tax,
                         impot_pv = tax_amount capital_gain_tax,
                         total_impot = total_tax_pfu,
                         total_net = total_net_pfu,
                         csg_deductible = csg_div + csg_pv\<rparr>,
                 bareme_progressif = None,
                 comparaison = None\<rparr>
          in case marginal_tax_rate of
               None \<Rightarrow> Inr summary
             | Some mtr \<Rightarrow>
                 bind_err (calculate_progressive_tax_dividend total_dividends mtr)
                   (\<lambda>progressive_div.
                      let progressive_pv = calculate_pfu_capital_gain net_capital_gains;
                          total_tax_progressive =
                            tax_amount progressive_div + tax_amount progressive_pv
                      in Inr (summary
                           \<lparr>bareme_progressif :=
                              Some \<lparr>b_impot_dividendes = tax_amount progressive_div,
                                    b_impot_pv = tax_amount progressive_pv,
                                    b_total_impot = total_tax_progressive,
                                    b_total_net = (total_dividends + net_capital_gains)
                                                   - total_tax_progressive,
                                    tmi = mtr\<rparr>,
                            comparaison :=
                              Some \<lparr>c_difference = total_tax_pfu - total_tax_progressive,
                                    meilleure_option =
                                      (if total_tax_pfu < total_tax_progressive
                                       then ''PFU'' else Bareme),
                                    economie = \<bar>total_tax_pfu - total_tax_progressive\<bar>\<rparr>\<rparr>)))))"

text \<open>
  \<open>calculate_tax_bracket\<close>: the table of the 2024 schedule, an upper bound \<open>None\<close> for
  \<^verbatim>\<open>float('inf')\<close>, and the \<^verbatim>\<open>for\<close> loop that returns at the first match.
\<close>

definition brackets :: "(real \<times> real option \<times> int \<times> string) list" where
  "brackets = [(0, Some 11294, 0, ''0%''),
               (11295, Some 28797, 11, ''11%''),
               (28798, Some 82341, 30, ''30%''),
               (82342, Some 177106, 41, ''41%''),
               (177107, None, 45, ''45%'')]"

fun find_bracket :: "real \<Rightarrow> (real \<times> real option \<times> int \<times> string) list \<Rightarrow> (int \<times> string) option" where
  "find_bracket x [] = None"
| "find_bracket x ((min_income, max_income, r, name) # rest) =
     (if min_income \<le> x \<and> (case max_income of None \<Rightarrow> True | Some m \<Rightarrow> x \<le> m)
      then Some (r, name) else find_bracket x rest)"

definition calculate_tax_bracket :: "real \<Rightarrow> real \<Rightarrow> error + (int \<times> string)" where
  "calculate_tax_bracket annual_income family_quotient =
     bind_err (py_div annual_income family_quotient)
       (\<lambda>income_per_part.
          case find_bracket income_per_part brackets of
            Some res \<Rightarrow> Inr res
          | None \<Rightarrow> Inr (45, ''45%''))"

section \<open>Example data\<close>

text \<open>The transactions of the FIFO test: two buys and a sale of 12 shares.\<close>

definition B1 :: Transaction where
  "B1 = Transaction_init ''AI.PA'' ''Air Liquide'' ''ACHAT'' 10 150 ''2024-01-01'' 0 1"

definition B2 :: Transaction where
  "B2 = Transaction_init ''AI.PA'' ''Air Liquide'' ''ACHAT'' 5 160 ''2024-02-01'' 0 1"

definition S12 :: Transaction where
  "S12 = Transaction_init ''AI.PA'' ''Air Liquide'' ''VENTE'' 12 180 ''2024-03-01'' 0 1"

text \<open>A sale of more than the 15 shares held, and a sale of nothing.\<close>

definition S20 :: Transaction where
  "S20 = Transaction_init ''AI.PA'' ''Air Liquide'' ''VENTE'' 20 180 ''2024-03-01'' 0 1"

definition S0 :: Transaction where
  "S0 = Transaction_init ''AI.PA'' ''Air Liquide'' ''VENTE'' 0 180 ''2024-03-01'' 0 1"

definition P0 :: Position where
  "P0 = \<lparr>pos_ticker = ''AI.PA'', pos_company_name = ''Air Liquide'', pos_quantity = 3,
         pos_average_buy_price = 0, total_invested = 0, current_price = 0, current_value = 0,
         unrealized_pnl = 0, unrealized_pnl_percent = 0\<rparr>"

text \<open>
  Fractional shares, as Python reads the literals 0.8, 0.5, 1.8 and 3.1: three buys, and a
  sale of the float sum of the three quantities.
\<close>

definition F1 :: Transaction where
  "F1 = Transaction_init ''AI.PA'' ''Air Liquide'' ''ACHAT'' (fl (8 / 10)) 10 ''2024-01-01'' 9 1"

definition F2 :: Transaction where
  "F2 = Transaction_init ''AI.PA'' ''Air Liquide'' ''ACHAT'' (fl (5 / 10)) 10 ''2024-01-02'' 6 1"

definition F3 :: Transaction where
  "F3 = Transaction_init ''AI.PA'' ''Air Liquide'' ''ACHAT'' (fl (18 / 10)) 10 ''2024-01-03'' 19 1"

definition SF :: Transaction where
  "SF = Transaction_init ''AI.PA'' ''Air Liquide'' ''VENTE'' (fl (31 / 10)) 12 ''2024-02-01''
          (fl (362 / 10)) 1"

text \<open>The two buys as lots of the database manager's ledger.\<close>

definition L1 :: Lot where "L1 = \<lparr>lot_quantity = 10, lot_cost = 1501\<rparr>"

definition L2 :: Lot where "L2 = \<lparr>lot_quantity = 5, lot_cost = 801\<rparr>"

section \<open>Vocabulary of the statements\<close>

text \<open>
  An open lot of the calculator: a buy with a positive quantity, as the schema's
  \<^verbatim>\<open>CHECK(quantity > 0)\<close> and the partial-sale branch of \<open>_update_remaining_buys\<close> make it.
\<close>

definition open_lot :: "Transaction \<Rightarrow> bool" where
  "open_lot t = (quantity t > 0 \<and> transaction_type t = ''ACHAT'')"

definition buy_total :: "Transaction list \<Rightarrow> real" where
  "buy_total txs = sum_list (map quantity (filter (\<lambda>t. transaction_type t = ''ACHAT'') txs))"

definition sell_total :: "Transaction list \<Rightarrow> real" where
  "sell_total txs = sum_list (map quantity (filter (\<lambda>t. transaction_type t = ''VENTE'') txs))"

text \<open>
  The cumulative sold quantity never exceeds the cumulative bought quantity: at every
  prefix of the list, the sells are covered by the buys.
\<close>

definition never_oversold :: "Transaction list \<Rightarrow> bool" where
  "never_oversold txs =
     list_all (\<lambda>n. sell_total (take n txs) \<le> buy_total (take n txs)) [0..<Suc (length txs)]"

text \<open>The same condition, along the replay, from a balance \<open>bal\<close> of shares held.\<close>

fun covered :: "real \<Rightarrow> Transaction list \<Rightarrow> bool" where
  "covered bal [] = True"
| "covered bal (tx # rest) =
     (if transaction_type tx = ''ACHAT'' then covered (bal + quantity tx) rest
      else if transaction_type tx = ''VENTE''
        then quantity tx \<le> bal \<and> covered (bal - quantity tx) rest
      else covered bal rest)"

text \<open>
  An open lot with a positive cost: a buy costs \<open>quantity * price + fees\<close>, with a positive
  price and fees that are not negative.
\<close>

definition costly_lot :: "Transaction \<Rightarrow> bool" where
  "costly_lot t = (open_lot t \<and> total_cost t > 0)"

text \<open>
  \<open>y\<close> is the lot \<open>x\<close>, untouched or reduced: neither its quantity nor its cost is larger,
  and its cost per share is the same. For the calculator's lots and for the database
  manager's.
\<close>

definition shrunk_tx :: "Transaction \<Rightarrow> Transaction \<Rightarrow> bool" where
  "shrunk_tx x y = (quantity y \<le> quantity x \<and> total_cost y \<le> total_cost x
       \<and> total_cost y / quantity y = total_cost x / quantity x)"

definition shrunk_lot :: "Lot \<Rightarrow> Lot \<Rightarrow> bool" where
  "shrunk_lot x y = (lot_quantity y \<le> lot_quantity x \<and> lot_cost y \<le> lot_cost x
       \<and> lot_cost y / lot_quantity y = lot_cost x / lot_quantity x)"

definition nonneg_lot :: "Lot \<Rightarrow> bool" where
  "nonneg_lot l = (lot_quantity l \<ge> 0 \<and> lot_cost l \<ge> 0)"

text \<open>The buys of a transaction list have quantities and costs that are not negative.\<close>

definition buys_nonneg :: "Transaction list \<Rightarrow> bool" where
  "buys_nonneg txs =
     list_all (\<lambda>t. quantity t \<ge> 0 \<and> total_cost t \<ge> 0)
       (filter (\<lambda>t. transaction_type t = ''ACHAT'') txs)"

section \<open>Evaluation of the rounding\<close>

lemma ulp_of_numeral:
  "ulp_of (numeral n) x u =
     (if 2 ^ 53 \<le> x then ulp_of (pred_numeral n) (x / 2) (u * 2)
      else if x < 2 ^ 52 then ulp_of (pred_numeral n) (x * 2) (u / 2)
      else u)"
  by (subst ulp_of.simps) (simp add: numeral_eq_Suc)

lemmas fl_eval = fl_def ulp_of_numeral round_even_def Let_def

section \<open>The FIFO example\<close>

text \<open>
  The results on the calculator are stated for the arithmetic of the reals, the rounding
  \<open>\<lambda>x. x\<close>, unless they name the rounding \<open>fl\<close> of the floats.
\<close>

lemma example_total_costs: "total_cost B1 = 1501" "total_cost B2 = 801" "total_cost S12 = 2159"
  by (simp_all add: B1_def B2_def S12_def Transaction_init_def)

text \<open>
  C1. Buys B1 (10 at 150, fee 1) and B2 (5 at 160, fee 1), then the sale of 12 at 180 with
  fee 1 (proceeds 2159): the calculation returns, all of B1 and 2 shares of B2 are consumed
  (12 sold, both lots used), the consumed cost is 1821.4, the gain is 337.6 and the
  percentage is within 0.01 of 18.54.
\<close>

theorem C1_fifo_example:
  "\<exists>r. calculate_realized_pv_fifo (\<lambda>x. x) [B1, B2] S12 = Inr r
       \<and> quantity_sold r = 12
       \<and> buy_transactions_used r = [tx_id B1, tx_id B2]
       \<and> total_cost S12 - total_gain_loss r = 1821.4
       \<and> total_gain_loss r = 337.6
       \<and> \<bar>total_gain_loss r - 337.6\<bar> \<le> 0.01
       \<and> \<bar>gain_loss_percent r - 18.54\<bar> < 0.01"
  by (simp add: calculate_realized_pv_fifo_def B1_def B2_def S12_def Transaction_init_def
        py_div_def Let_def)

text \<open>The same example in float arithmetic: the tolerances absorb the rounding.\<close>

lemma fifo_example_rounded:
  "\<exists>r. calculate_realized_pv_fifo fl [B1, B2] S12 = Inr r
       \<and> quantity_sold r = 12
       \<and> \<bar>total_gain_loss r - 337.6\<bar> \<le> 0.01
       \<and> \<bar>gain_loss_percent r - 18.54\<bar> < 0.01"
  by (simp add: calculate_realized_pv_fifo_def B1_def B2_def S12_def Transaction_init_def
        py_div_def fl_eval)

section \<open>Tax engine: results\<close>

lemmas tax_defs = calculate_pfu_dividend_def calculate_pfu_capital_gain_def
  calculate_progressive_tax_dividend_def INCOME_TAX_RATE_def SOCIAL_TAX_RATE_def
  CSG_DEDUCTIBLE_RATE_def DIVIDEND_ALLOWANCE_RATE_def FLAT_TAX_RATE_def
  bind_err_def py_div_def dict_get_def Let_def

lemma pfu_formula:
  "tax_amount (calculate_pfu_dividend g) = g * 0.128 + g * 0.172"
  "net_amount (calculate_pfu_dividend g) = g - (g * 0.128 + g * 0.172)"
  "dict_get (breakdown (calculate_pfu_dividend g)) ''csg_deductible'' = Inr (g * 0.068)"
  by (simp_all add: tax_defs)

lemma pfu_5000: "tax_amount (calculate_pfu_dividend 5000) = 1500"
  by (simp add: tax_defs)

text \<open>Away from a gross amount of 0 the progressive computation follows the formulas.\<close>

lemma progressive_formula:
  "g \<noteq> 0 \<Longrightarrow> \<exists>r. calculate_progressive_tax_dividend g m = Inr r
     \<and> dict_get (breakdown r) ''base_imposable'' = Inr (g * (1 - 0.40))
     \<and> dict_get (breakdown r) ''impot_revenu'' = Inr (g * (1 - 0.40) * m / 100)
     \<and> dict_get (breakdown r) ''prelevements_sociaux'' = Inr (g * 0.172)
     \<and> tax_amount r = g * (1 - 0.40) * m / 100 + g * 0.172
     \<and> net_amount r = g - tax_amount r
     \<and> dict_get (breakdown r) ''csg_deductible'' = Inr (g * 0.068)"
  by (simp add: tax_defs)

lemma progressive_5000:
  "\<exists>r. calculate_progressive_tax_dividend 5000 30 = Inr r
     \<and> dict_get (breakdown r) ''base_imposable'' = Inr 3000
     \<and> dict_get (breakdown r) ''impot_revenu'' = Inr 900
     \<and> dict_get (breakdown r) ''prelevements_sociaux'' = Inr 860
     \<and> tax_amount r = 1760
     \<and> net_amount r = 3240"
  by (simp add: tax_defs)

text \<open>
  C4. The formulas of the flat tax and of the progressive regime are meant for every gross
  amount. At a gross amount of 0 the progressive computation does not yield a result: the
  effective rate \<^verbatim>\<open>(total_tax / gross_dividend) * 100\<close> of its breakdown divides by 0.
\<close>

theorem C4_progressive_zero_gross:
  "calculate_progressive_tax_dividend 0 30 = Inl ZeroDivisionError"
  by (simp add: tax_defs)

text \<open>
  C2. The comparison is meant to name the regime with the strictly lower tax. For a gross
  amount of 5000 at a marginal rate of 30 the flat tax is 1500 and the progressive tax 1760,
  and the option reported as best is the progressive one.
\<close>

theorem C2_best_option_inverted:
  "\<exists>c. compare_pfu_vs_progressive 5000 30 = Inr c
       \<and> tax (cmp_pfu c) = 1500 \<and> tax (cmp_progressive c) = 1760
       \<and> best_option c = Bareme @ '' progressif'' \<and> best_option c \<noteq> ''PFU''"
  by (simp add: compare_pfu_vs_progressive_def tax_defs Bareme_def)

text \<open>
  What the comparison computes away from a gross amount of 0: \<^verbatim>\<open>PFU\<close> exactly when the
  flat tax is strictly the higher of the two; on a tie, the progressive regime.
\<close>

lemma compare_best_option:
  "g \<noteq> 0 \<Longrightarrow> \<exists>c. compare_pfu_vs_progressive g m = Inr c
       \<and> tax (cmp_pfu c) = tax_amount (calculate_pfu_dividend g)
       \<and> best_option c =
           (if tax (cmp_pfu c) > tax (cmp_progressive c) then ''PFU''
            else Bareme @ '' progressif'')"
  by (simp add: compare_pfu_vs_progressive_def tax_defs Bareme_def)

lemma compare_tie:
  "\<exists>c. compare_pfu_vs_progressive 300 (64 / 3) = Inr c
       \<and> tax (cmp_pfu c) = tax (cmp_progressive c)
       \<and> best_option c = Bareme @ '' progressif''"
  by (simp add: compare_pfu_vs_progressive_def tax_defs Bareme_def)

lemma compare_zero_gross: "compare_pfu_vs_progressive 0 m = Inl ZeroDivisionError"
  by (simp add: compare_pfu_vs_progressive_def tax_defs)

text \<open>
  C5. The annual summary is meant to report, for every input, net capital gains floored
  at 0 and a progressive block that taxes them with the flat-tax formula. With no dividends
  and a marginal rate it reports nothing: the progressive dividend computation divides by
  the gross dividends.
\<close>

theorem C5_summary_zero_dividends:
  "calculate_annual_tax_summary 0 1000 2000 (Some 30) = Inl ZeroDivisionError"
  by (simp add: calculate_annual_tax_summary_def tax_defs)

text \<open>On every other input the summary is as described.\<close>

lemma annual_summary_net_gains:
  "d \<noteq> 0 \<or> mtr = None \<Longrightarrow>
   \<exists>s. calculate_annual_tax_summary d g l mtr = Inr s
      \<and> plus_values_nettes (revenus s) = max 0 (g - l)
      \<and> 0 \<le> plus_values_nettes (revenus s)
      \<and> impot_pv (pfu s) = tax_amount (calculate_pfu_dividend (max 0 (g - l)))
      \<and> (case mtr of None \<Rightarrow> bareme_progressif s = None
          | Some m \<Rightarrow> (\<exists>b r. bareme_progressif s = Some b
               \<and> calculate_progressive_tax_dividend d m = Inr r
               \<and> b_impot_pv b = tax_amount (calculate_pfu_dividend (max 0 (g - l)))
               \<and> b_impot_dividendes b = tax_amount r))"
  by (cases mtr) (auto simp add: calculate_annual_tax_summary_def tax_defs)

text \<open>
  The rate returned for a per-part income \<open>a / p\<close>: the thresholds are whole numbers, and an
  income strictly between two of them matches no row of the table.
\<close>

lemma calculate_tax_bracket_table:
  "p \<noteq> 0 \<Longrightarrow> calculate_tax_bracket a p =
     (let x = a / p in
      if 0 \<le> x \<and> x \<le> 11294 then Inr (0, ''0%'')
      else if 11295 \<le> x \<and> x \<le> 28797 then Inr (11, ''11%'')
      else if 28798 \<le> x \<and> x \<le> 82341 then Inr (30, ''30%'')
      else if 82342 \<le> x \<and> x \<le> 177106 then Inr (41, ''41%'')
      else Inr (45, ''45%''))"
  by (simp add: calculate_tax_bracket_def brackets_def py_div_def bind_err_def Let_def)

text \<open>
  C6. The rate is meant to be that of the bracket containing the income per part: 0 up to
  11294, then 11 up to 28797, and so on. An income of 22589 for 2 parts is 11294.5 per part,
  above the first threshold and far below the second, and the rate returned is 45.
\<close>

theorem C6_bracket_gap:
  "calculate_tax_bracket 22589 2 = Inr (45, ''45%'')"
  by (simp add: calculate_tax_bracket_def brackets_def py_div_def bind_err_def)

section \<open>Realized gains: results\<close>

lemma fifo_loop_sold:
  "list_all (\<lambda>t. quantity t > 0) lots \<Longrightarrow>
   \<exists>c' u'. fifo_loop (\<lambda>x. x) s lots (c, q, u) =
       Inr (c', (if q \<ge> s then q else min s (q + sum_list (map quantity lots))), u')"
proof (induction lots arbitrary: c q u)
  case Nil
  then show ?case by auto
next
  case (Cons b lots)
  have qb: "quantity b > 0" and rest: "list_all (\<lambda>t. quantity t > 0) lots"
    using Cons.prems by auto
  have nn: "0 \<le> sum_list (map quantity lots)"
    using rest by (induction lots) auto
  show ?case
  proof (cases "q \<ge> s")
    case True
    then show ?thesis by simp
  next
    case False
    define qf where "qf = min (quantity b) (s - q)"
    obtain c' u' where
      ih: "fifo_loop (\<lambda>x. x) s lots (c + qf * (total_cost b / quantity b), q + qf, u @ [tx_id b]) =
         Inr (c', (if q + qf \<ge> s then q + qf
                   else min s (q + qf + sum_list (map quantity lots))), u')"
      using Cons.IH[OF rest] by blast
    have "(if q + qf \<ge> s then q + qf else min s (q + qf + sum_list (map quantity lots)))
          = min s (q + (quantity b + sum_list (map quantity lots)))"
      using False qb nn by (auto simp: qf_def min_def)
    with ih False qb show ?thesis
      by (simp add: py_div_def Let_def qf_def)
  qed
qed

lemma fifo_loop_returns:
  "list_all (\<lambda>t. quantity t \<noteq> 0) lots \<Longrightarrow> \<exists>r. fifo_loop (\<lambda>x. x) s lots (c, q, u) = Inr r"
  by (induction lots arbitrary: c q u) (simp_all add: py_div_def Let_def)

lemma realized_of_loop:
  "fifo_loop (\<lambda>x. x) (quantity sell) lots (0, 0, []) = Inr (c, q, u) \<Longrightarrow>
   \<exists>r. calculate_realized_pv_fifo (\<lambda>x. x) lots sell = Inr r
      \<and> quantity_sold r = q
      \<and> total_gain_loss r = total_cost sell - c
      \<and> buy_transactions_used r = u
      \<and> average_buy_price r = (if q > 0 then c / q else 0)
      \<and> gain_loss_percent r = (if c > 0 then (total_cost sell - c) / c * 100 else 0)"
  by (simp add: calculate_realized_pv_fifo_def py_div_def Let_def)

text \<open>
  C10. On open lots (positive quantities) and a sale of a non-negative quantity, the
  quantity sold is the minimum of the sale's quantity and the total quantity of the lots;
  a shortfall raises nothing. With no lot at all nothing is sold, the average buy price and
  the percentage are 0, and the gain is the whole proceeds of the sale.
\<close>

theorem C10_quantity_sold:
  "(list_all (\<lambda>t. quantity t > 0) lots \<and> quantity sell \<ge> 0 \<longrightarrow>
      (\<exists>r. calculate_realized_pv_fifo (\<lambda>x. x) lots sell = Inr r
          \<and> quantity_sold r = min (quantity sell) (sum_list (map quantity lots))))
   \<and> (\<exists>r. calculate_realized_pv_fifo (\<lambda>x. x) [] sell = Inr r
          \<and> quantity_sold r = 0 \<and> average_buy_price r = 0 \<and> gain_loss_percent r = 0
          \<and> total_gain_loss r = total_cost sell)"
proof (intro conjI impI)
  assume a: "list_all (\<lambda>t. quantity t > 0) lots \<and> quantity sell \<ge> 0"
  then have pos: "list_all (\<lambda>t. quantity t > 0) lots" and s: "quantity sell \<ge> 0" by simp_all
  have nn: "0 \<le> sum_list (map quantity lots)" using pos by (induction lots) auto
  from fifo_loop_sold[OF pos, of "quantity sell" 0 0 "[]"] obtain c u where
    "fifo_loop (\<lambda>x. x) (quantity sell) lots (0, 0, []) =
       Inr (c, (if 0 \<ge> quantity sell then 0 else min (quantity sell) (0 + sum_list (map quantity lots))), u)"
    by blast
  moreover have "(if 0 \<ge> quantity sell then 0 else min (quantity sell) (0 + sum_list (map quantity lots)))
      = min (quantity sell) (sum_list (map quantity lots))"
    using s nn by auto
  ultimately have "fifo_loop (\<lambda>x. x) (quantity sell) lots (0, 0, []) =
       Inr (c, min (quantity sell) (sum_list (map quantity lots)), u)" by simp
  from realized_of_loop[OF this]
  show "\<exists>r. calculate_realized_pv_fifo (\<lambda>x. x) lots sell = Inr r
          \<and> quantity_sold r = min (quantity sell) (sum_list (map quantity lots))" by blast
next
  show "\<exists>r. calculate_realized_pv_fifo (\<lambda>x. x) [] sell = Inr r
          \<and> quantity_sold r = 0 \<and> average_buy_price r = 0 \<and> gain_loss_percent r = 0
          \<and> total_gain_loss r = total_cost sell"
    by (simp add: calculate_realized_pv_fifo_def)
qed

theorem C10_quantity_sold_witness:
  "list_all (\<lambda>t. quantity t > 0) [B1, B2] \<and> quantity S20 \<ge> 0
   \<and> (\<exists>r. calculate_realized_pv_fifo (\<lambda>x. x) [B1, B2] S20 = Inr r \<and> quantity_sold r = 15)"
proof -
  have h: "list_all (\<lambda>t. quantity t > 0) [B1, B2] \<and> quantity S20 \<ge> 0"
    by (simp add: B1_def B2_def S20_def Transaction_init_def)
  from C10_quantity_sold[of "[B1, B2]" S20] h
  have "\<exists>r. calculate_realized_pv_fifo (\<lambda>x. x) [B1, B2] S20 = Inr r
          \<and> quantity_sold r = min (quantity S20) (sum_list (map quantity [B1, B2]))"
    by blast
  moreover have "min (quantity S20) (sum_list (map quantity [B1, B2])) = 15"
    by (simp add: B1_def B2_def S20_def Transaction_init_def)
  ultimately show ?thesis using h by simp
qed

text \<open>
  Whatever the rounding, no division by 0 is reached on lots of a quantity other than 0,
  and the guards give 0.
\<close>

lemma fifo_loop_returns_rounded:
  "list_all (\<lambda>t. quantity t \<noteq> 0) lots \<Longrightarrow> \<exists>r. fifo_loop rnd s lots (c, q, u) = Inr r"
  by (induction lots arbitrary: c q u) (simp_all add: py_div_def Let_def)

lemma realized_returns_rounded:
  assumes "list_all (\<lambda>t. quantity t \<noteq> 0) lots"
  shows "\<exists>c q u r. fifo_loop rnd (quantity sell) lots (0, 0, []) = Inr (c, q, u)
          \<and> calculate_realized_pv_fifo rnd lots sell = Inr r
          \<and> quantity_sold r = q
          \<and> gain_loss_percent r =
               (if c > 0 then rnd (rnd (rnd (total_cost sell - c) / c) * 100) else 0)
          \<and> average_buy_price r = (if q > 0 then rnd (c / q) else 0)"
proof -
  from fifo_loop_returns_rounded[OF assms, of rnd "quantity sell" 0 0 "[]"] obtain c q u where
    "fifo_loop rnd (quantity sell) lots (0, 0, []) = Inr (c, q, u)"
    using prod_cases3 by metis
  then show ?thesis
    by (auto simp add: calculate_realized_pv_fifo_def py_div_def Let_def)
qed

text \<open>
  C7. The percentages are 0, and nothing is raised, when their denominator is not positive.
  For buy lots of a quantity other than 0 (a transaction has a positive quantity: the
  schema's \<^verbatim>\<open>CHECK(quantity > 0)\<close>), \<open>calculate_realized_pv_fifo\<close> returns a result, with a
  percentage of 0 unless the consumed cost is positive and an average buy price of 0
  unless the quantity sold is positive; \<open>update_current_values\<close> returns a result for every
  position and price, with a percentage of 0 unless the total invested is positive. Every
  division of the two operations is a checked one, so a result is the absence of a
  division by 0.
\<close>

theorem C7_zero_guard:
  assumes "list_all (\<lambda>t. quantity t \<noteq> 0) lots"
  shows "(\<exists>r. calculate_realized_pv_fifo (\<lambda>x. x) lots sell = Inr r
           \<and> gain_loss_percent r =
               (if total_cost sell - total_gain_loss r > 0
                then total_gain_loss r / (total_cost sell - total_gain_loss r) * 100 else 0)
           \<and> average_buy_price r =
               (if quantity_sold r > 0
                then (total_cost sell - total_gain_loss r) / quantity_sold r else 0))
       \<and> (\<exists>p'. update_current_values p price = Inr p'
           \<and> unrealized_pnl_percent p' =
               (if total_invested p > 0
                then (pos_quantity p * price - total_invested p) / total_invested p * 100 else 0))"
proof
  from fifo_loop_returns[OF assms, of "quantity sell" 0 0 "[]"] obtain c q u where
    "fifo_loop (\<lambda>x. x) (quantity sell) lots (0, 0, []) = Inr (c, q, u)"
    using prod_cases3 by metis
  from realized_of_loop[OF this]
  show "\<exists>r. calculate_realized_pv_fifo (\<lambda>x. x) lots sell = Inr r
           \<and> gain_loss_percent r =
               (if total_cost sell - total_gain_loss r > 0
                then total_gain_loss r / (total_cost sell - total_gain_loss r) * 100 else 0)
           \<and> average_buy_price r =
               (if quantity_sold r > 0
                then (total_cost sell - total_gain_loss r) / quantity_sold r else 0)"
    by auto
next
  show "\<exists>p'. update_current_values p price = Inr p'
           \<and> unrealized_pnl_percent p' =
               (if total_invested p > 0
                then (pos_quantity p * price - total_invested p) / total_invested p * 100 else 0)"
    by (simp add: update_current_values_def Let_def py_div_def bind_err_def)
qed

theorem C7_zero_guard_witness:
  "list_all (\<lambda>t. quantity t \<noteq> 0) [B1, B2]
   \<and> (\<exists>r. calculate_realized_pv_fifo (\<lambda>x. x) [B1, B2] S0 = Inr r
         \<and> gain_loss_percent r = 0 \<and> average_buy_price r = 0)
   \<and> (\<exists>p'. update_current_values P0 180 = Inr p' \<and> unrealized_pnl_percent p' = 0)"
proof -
  have h: "list_all (\<lambda>t. quantity t \<noteq> 0) [B1, B2]"
    by (simp add: B1_def B2_def Transaction_init_def)
  from C7_zero_guard[OF h, of S0 P0 180] obtain r p' where
    r: "calculate_realized_pv_fifo (\<lambda>x. x) [B1, B2] S0 = Inr r"
       "gain_loss_percent r =
               (if total_cost S0 - total_gain_loss r > 0
                then total_gain_loss r / (total_cost S0 - total_gain_loss r) * 100 else 0)"
       "average_buy_price r =
               (if quantity_sold r > 0
                then (total_cost S0 - total_gain_loss r) / quantity_sold r else 0)"
    and p: "update_current_values P0 180 = Inr p'"
       "unrealized_pnl_percent p' =
               (if total_invested P0 > 0
                then (pos_quantity P0 * 180 - total_invested P0) / total_invested P0 * 100 else 0)"
    by blast
  have e: "calculate_realized_pv_fifo (\<lambda>x. x) [B1, B2] S0 =
      Inr \<lparr>rgl_ticker = ''AI.PA'', quantity_sold = 0, sell_price = 180, average_buy_price = 0,
           total_gain_loss = -1, gain_loss_percent = 0, sell_date = ''2024-03-01'',
           buy_transactions_used = []\<rparr>"
    by (simp add: calculate_realized_pv_fifo_def B1_def B2_def S0_def Transaction_init_def)
  have "gain_loss_percent r = 0 \<and> average_buy_price r = 0" using r(1) e by auto
  moreover have "unrealized_pnl_percent p' = 0" using p(2) by (simp add: P0_def)
  ultimately show ?thesis using h r(1) p(1) by blast
qed

section \<open>Conservation of quantities\<close>

lemma sum_quantity_nonneg: "list_all open_lot lots \<Longrightarrow> 0 \<le> sum_list (map quantity lots)"
  by (induction lots) (auto simp: open_lot_def)

lemma post_init_quantity:
  "transaction_type t = ''ACHAT'' \<Longrightarrow>
   \<exists>t'. post_init (\<lambda>x. x) t = Inr t' \<and> quantity t' = quantity t \<and> transaction_type t' = ''ACHAT''
        \<and> tx_id t' = tx_id t \<and> (total_cost t \<noteq> 0 \<longrightarrow> t' = t)"
  by (simp add: post_init_def)

lemma urb_loop_quantity:
  "list_all open_lot lots \<Longrightarrow> list_all open_lot rem \<Longrightarrow>
   \<exists>rem' r'. urb_loop (\<lambda>x. x) lots (rem, r) = Inr (rem', r') \<and> list_all open_lot rem'
     \<and> sum_list (map quantity rem') =
        sum_list (map quantity rem)
        + (if r \<le> 0 then sum_list (map quantity lots)
           else max 0 (sum_list (map quantity lots) - r))"
proof (induction lots arbitrary: rem r)
  case Nil
  then show ?case by simp
next
  case (Cons b lots)
  have ob: "open_lot b" and rest: "list_all open_lot lots"
    using Cons.prems(1) by simp_all
  have b: "quantity b > 0" "transaction_type b = ''ACHAT''"
    using ob by (simp_all add: open_lot_def)
  have nn: "0 \<le> sum_list (map quantity lots)" using rest by (rule sum_quantity_nonneg)
  consider (keep) "r \<le> 0" | (part) "r > 0" "quantity b > r" | (drop) "r > 0" "quantity b \<le> r"
    by linarith
  then show ?case
  proof cases
    case keep
    have "list_all open_lot (rem @ [b])" using Cons.prems by simp
    from Cons.IH[OF rest this, of r] keep show ?thesis by auto
  next
    case part
    define u where "u = b\<lparr>quantity := quantity b - r,
        total_cost := total_cost b * (quantity b - r) / quantity b,
        fees := fees b * (quantity b - r) / quantity b\<rparr>"
    have "transaction_type u = ''ACHAT''" by (simp add: u_def b)
    from post_init_quantity[OF this] obtain u' where
      u': "post_init (\<lambda>x. x) u = Inr u'" "quantity u' = quantity u" "transaction_type u' = ''ACHAT''"
      by blast
    have "open_lot u'" using u' part by (simp add: open_lot_def u_def)
    then have "list_all open_lot (rem @ [u'])" using Cons.prems(2) by simp
    from Cons.IH[OF rest this, of 0] obtain rem' r' where
      ih: "urb_loop (\<lambda>x. x) lots (rem @ [u'], 0) = Inr (rem', r')" "list_all open_lot rem'"
        "sum_list (map quantity rem') = sum_list (map quantity (rem @ [u'])) + sum_list (map quantity lots)"
      by auto
    have step: "urb_loop (\<lambda>x. x) (b # lots) (rem, r) = urb_loop (\<lambda>x. x) lots (rem @ [u'], 0)"
      using part b u'(1) by (simp add: py_div_def u_def)
    show ?thesis
      using ih part nn u'(2) unfolding step by (auto simp: u_def)
  next
    case drop
    from Cons.IH[OF rest Cons.prems(2), of "r - quantity b"] drop b nn show ?thesis
      by (auto simp: max_def split: if_splits)
  qed
qed

lemma update_remaining_buys_quantity:
  "list_all open_lot lots \<Longrightarrow> 0 \<le> s \<Longrightarrow>
   \<exists>rem'. update_remaining_buys (\<lambda>x. x) lots s = Inr rem' \<and> list_all open_lot rem'
     \<and> sum_list (map quantity rem') = max 0 (sum_list (map quantity lots) - s)"
proof -
  assume a: "list_all open_lot lots" "0 \<le> s"
  from urb_loop_quantity[OF a(1), of "[]" s] obtain rem' r' where
    h: "urb_loop (\<lambda>x. x) lots ([], s) = Inr (rem', r')" "list_all open_lot rem'"
       "sum_list (map quantity rem') =
          (if s \<le> 0 then sum_list (map quantity lots) else max 0 (sum_list (map quantity lots) - s))"
    by auto
  have "sum_list (map quantity rem') = max 0 (sum_list (map quantity lots) - s)"
    using h(3) a(2) sum_quantity_nonneg[OF a(1)] by (auto simp: max_def)
  with h show ?thesis by (simp add: update_remaining_buys_def)
qed

lemma all_pv_loop_conservation:
  "list_all (\<lambda>t. quantity t > 0) txs \<Longrightarrow> list_all open_lot rem \<Longrightarrow>
   covered (sum_list (map quantity rem)) txs \<Longrightarrow>
   \<exists>pvs' rem'. all_pv_loop (\<lambda>x. x) txs (pvs, rem) = Inr (pvs', rem')
      \<and> sum_list (map quantity rem') + sum_list (map quantity_sold pvs')
        = sum_list (map quantity rem) + sum_list (map quantity_sold pvs) + buy_total txs"
proof (induction txs arbitrary: pvs rem)
  case Nil
  then show ?case by (simp add: buy_total_def)
next
  case (Cons tx txs)
  have q: "quantity tx > 0" and rest: "list_all (\<lambda>t. quantity t > 0) txs"
    using Cons.prems(1) by auto
  consider (buy) "transaction_type tx = ''ACHAT''"
    | (sell) "transaction_type tx = ''VENTE''"
    | (other) "transaction_type tx \<noteq> ''ACHAT''" "transaction_type tx \<noteq> ''VENTE''"
    by blast
  then show ?case
  proof cases
    case buy
    have "open_lot tx" using q buy by (simp add: open_lot_def)
    then have 1: "list_all open_lot (rem @ [tx])" using Cons.prems(2) by simp
    have 2: "covered (sum_list (map quantity (rem @ [tx]))) txs" using Cons.prems(3) buy by simp
    from Cons.IH[OF rest 1 2, of pvs] buy show ?thesis by (auto simp: buy_total_def)
  next
    case sell
    have le: "quantity tx \<le> sum_list (map quantity rem)"
      and cov: "covered (sum_list (map quantity rem) - quantity tx) txs"
      using Cons.prems(3) sell by auto
    have pos: "list_all (\<lambda>t. quantity t > 0) rem"
      using Cons.prems(2) by (induction rem) (auto simp: open_lot_def)
    from fifo_loop_sold[OF pos, of "quantity tx" 0 0 "[]"] q obtain c u where
      "fifo_loop (\<lambda>x. x) (quantity tx) rem (0, 0, []) = Inr (c, min (quantity tx) (sum_list (map quantity rem)), u)"
      by auto
    from realized_of_loop[OF this] le obtain pv where
      pv: "calculate_realized_pv_fifo (\<lambda>x. x) rem tx = Inr pv" "quantity_sold pv = quantity tx"
      by auto
    from update_remaining_buys_quantity[OF Cons.prems(2), of "quantity tx"] q le obtain rem1 where
      r1: "update_remaining_buys (\<lambda>x. x) rem (quantity tx) = Inr rem1" "list_all open_lot rem1"
        "sum_list (map quantity rem1) = sum_list (map quantity rem) - quantity tx"
      by auto
    have cov1: "covered (sum_list (map quantity rem1)) txs" using cov r1(3) by simp
    from Cons.IH[OF rest r1(2) cov1, of "pvs @ [pv]"] obtain pvs' rem' where
      ih: "all_pv_loop (\<lambda>x. x) txs (pvs @ [pv], rem1) = Inr (pvs', rem')"
        "sum_list (map quantity rem') + sum_list (map quantity_sold pvs')
         = sum_list (map quantity rem1) + sum_list (map quantity_sold (pvs @ [pv])) + buy_total txs"
      by blast
    have "all_pv_loop (\<lambda>x. x) (tx # txs) (pvs, rem) = all_pv_loop (\<lambda>x. x) txs (pvs @ [pv], rem1)"
      using sell pv(1) r1(1) by simp
    with ih pv(2) r1(3) sell show ?thesis by (simp add: buy_total_def)
  next
    case other
    from Cons.IH[OF rest Cons.prems(2), of pvs] Cons.prems(3) other show ?thesis
      by (simp add: buy_total_def)
  qed
qed

lemma covered_of_prefixes:
  "(\<And>n. n \<le> length txs \<Longrightarrow> sell_total (take n txs) \<le> bal + buy_total (take n txs))
   \<Longrightarrow> covered bal txs"
proof (induction txs arbitrary: bal)
  case Nil
  then show ?case by simp
next
  case (Cons tx txs)
  have step: "sell_total (tx # take m txs) \<le> bal + buy_total (tx # take m txs)"
    if "m \<le> length txs" for m
    using Cons.prems[of "Suc m"] that by simp
  consider (buy) "transaction_type tx = ''ACHAT''"
    | (sell) "transaction_type tx = ''VENTE''"
    | (other) "transaction_type tx \<noteq> ''ACHAT''" "transaction_type tx \<noteq> ''VENTE''"
    by blast
  then show ?case
  proof cases
    case buy
    have "covered (bal + quantity tx) txs"
    proof (rule Cons.IH)
      fix n assume "n \<le> length txs"
      from step[OF this] buy
      show "sell_total (take n txs) \<le> bal + quantity tx + buy_total (take n txs)"
        by (simp add: sell_total_def buy_total_def)
    qed
    with buy show ?thesis by simp
  next
    case sell
    have "covered (bal - quantity tx) txs"
    proof (rule Cons.IH)
      fix n assume "n \<le> length txs"
      from step[OF this] sell
      show "sell_total (take n txs) \<le> bal - quantity tx + buy_total (take n txs)"
        by (simp add: sell_total_def buy_total_def)
    qed
    moreover have "quantity tx \<le> bal"
      using step[of 0] sell by (simp add: sell_total_def buy_total_def)
    ultimately show ?thesis using sell by simp
  next
    case other
    have "covered bal txs"
    proof (rule Cons.IH)
      fix n assume "n \<le> length txs"
      from step[OF this] other
      show "sell_total (take n txs) \<le> bal + buy_total (take n txs)"
        by (simp add: sell_total_def buy_total_def)
    qed
    with other show ?thesis by simp
  qed
qed

lemma never_oversold_covered: "never_oversold txs \<Longrightarrow> covered 0 txs"
proof (rule covered_of_prefixes)
  fix n assume a: "never_oversold txs" "n \<le> length txs"
  then have "n \<in> set [0..<Suc (length txs)]" by auto
  with a(1) have "sell_total (take n txs) \<le> buy_total (take n txs)"
    unfolding never_oversold_def list_all_iff by blast
  then show "sell_total (take n txs) \<le> 0 + buy_total (take n txs)" by simp
qed

lemma buy_total_insort:
  "buy_total (insort_key f x xs) = buy_total (x # xs)"
  by (induction xs) (auto simp: buy_total_def)

lemma buy_total_sort: "buy_total (sort_key f xs) = buy_total xs"
proof (induction xs)
  case Nil
  then show ?case by simp
next
  case (Cons x xs)
  have "buy_total (sort_key f (x # xs)) = buy_total (x # sort_key f xs)"
    by (simp add: buy_total_insort)
  also have "\<dots> = buy_total (x # xs)" using Cons by (simp add: buy_total_def)
  finally show ?case .
qed

text \<open>
  In the arithmetic of the reals the quantities are conserved: for transactions of
  positive quantity whose sells, in the order of the replay (by date), never exceed the
  buys so far, the replay returns, and the quantities of the remaining lots plus the
  quantities sold add up to the quantities of all buys.
\<close>

lemma conservation_exact:
  assumes "list_all (\<lambda>t. quantity t > 0) txs"
    and "never_oversold (sort_key transaction_date txs)"
  shows "\<exists>pvs rem. all_pv_loop (\<lambda>x. x) (sort_key transaction_date txs) ([], []) = Inr (pvs, rem)
           \<and> calculate_all_realized_pv (\<lambda>x. x) txs = Inr pvs
           \<and> sum_list (map quantity rem) + sum_list (map quantity_sold pvs) = buy_total txs"
proof -
  let ?s = "sort_key transaction_date txs"
  have pos: "list_all (\<lambda>t. quantity t > 0) ?s"
    using assms(1) by (simp add: list_all_iff)
  have cov: "covered (sum_list (map quantity [])) ?s"
    using never_oversold_covered[OF assms(2)] by simp
  from all_pv_loop_conservation[OF pos _ cov, of "[]"] obtain pvs rem where
    h: "all_pv_loop (\<lambda>x. x) ?s ([], []) = Inr (pvs, rem)"
       "sum_list (map quantity rem) + sum_list (map quantity_sold pvs) = buy_total ?s"
    by auto
  show ?thesis
    using h by (auto simp: calculate_all_realized_pv_def buy_total_sort)
qed

lemma conservation_exact_example:
  "list_all (\<lambda>t. quantity t > 0) [S12, B2, B1]
   \<and> never_oversold (sort_key transaction_date [S12, B2, B1])
   \<and> (\<exists>pvs rem. all_pv_loop (\<lambda>x. x) (sort_key transaction_date [S12, B2, B1]) ([], []) = Inr (pvs, rem)
           \<and> calculate_all_realized_pv (\<lambda>x. x) [S12, B2, B1] = Inr pvs
           \<and> sum_list (map quantity rem) + sum_list (map quantity_sold pvs) = buy_total [S12, B2, B1])"
proof -
  have 1: "list_all (\<lambda>t. quantity t > 0) [S12, B2, B1]"
    by (simp add: B1_def B2_def S12_def Transaction_init_def)
  have 2: "never_oversold (sort_key transaction_date [S12, B2, B1])"
    by (simp add: never_oversold_def sell_total_def buy_total_def
          B1_def B2_def S12_def Transaction_init_def upt_rec)
  from conservation_exact[OF 1 2] 1 2 show ?thesis by blast
qed

section \<open>Conservation under rounding\<close>

lemma float_quantities:
  "quantity F1 = 3602879701896397 / 2 ^ 52"
  "quantity F2 = 1 / 2"
  "quantity F3 = 8106479329266893 / 2 ^ 52"
  "quantity SF = 6980579422424269 / 2 ^ 51"
  by (simp_all add: F1_def F2_def F3_def SF_def Transaction_init_def fl_eval)

lemma float_fifo:
  "\<exists>c u. fifo_loop fl (quantity SF) [F1, F2, F3] (0, 0, []) = Inr (c, quantity SF, u)"
  by (simp add: F1_def F2_def F3_def SF_def Transaction_init_def fl_eval py_div_def)

lemma float_realized:
  "\<exists>r. calculate_realized_pv_fifo fl [F1, F2, F3] SF = Inr r \<and> quantity_sold r = quantity SF"
proof -
  from float_fifo obtain c u where
    "fifo_loop fl (quantity SF) [F1, F2, F3] (0, 0, []) = Inr (c, quantity SF, u)" by blast
  moreover have "quantity SF > 0" by (simp add: float_quantities)
  moreover have "quantity SF \<noteq> 0" by (simp add: float_quantities)
  ultimately show ?thesis
    by (simp add: calculate_realized_pv_fifo_def py_div_def Let_def)
qed

lemma float_update:
  "\<exists>rem. update_remaining_buys fl [F1, F2, F3] (quantity SF) = Inr rem
      \<and> map quantity rem = [1 / 2 ^ 52]"
  by (simp add: update_remaining_buys_def F1_def F2_def F3_def SF_def Transaction_init_def
        fl_eval py_div_def post_init_def)

lemma float_order: "sort_key transaction_date [F1, F2, F3, SF] = [F1, F2, F3, SF]"
  by (simp add: F1_def F2_def F3_def SF_def Transaction_init_def)

lemma float_types:
  "transaction_type F1 = ''ACHAT''" "transaction_type F2 = ''ACHAT''"
  "transaction_type F3 = ''ACHAT''" "transaction_type SF = ''VENTE''"
  by (simp_all add: F1_def F2_def F3_def SF_def Transaction_init_def)

text \<open>
  C3. The quantities are meant to be conserved. With Python's floats they are not: for
  buys of 0.8, 0.5 and 1.8 shares and a sale of 3.1 shares, which is the float sum of the
  buys, the calculation sells 3.1 shares, but \<open>_update_remaining_buys\<close> is left with
  \<open>3.1 - 0.8 - 0.5\<close> rounded to 1.7999999999999998 to remove from the lot of 1.8 and keeps
  that lot with \<open>1 / 2 ^ 52\<close> of a share. The remaining quantity plus the quantity sold is not
  the quantity bought, in float arithmetic (3.1000000000000005 against 3.1) and exactly.
  The comparison \<^verbatim>\<open>buy_tx.quantity > quantity_to_remove\<close> has no tolerance; the ledger of
  the database manager compares with a tolerance of 1e-9 and drops such a lot.
\<close>

theorem C3_rounding_leaves_lot:
  "list_all (\<lambda>t. quantity t > 0) [F1, F2, F3, SF]
   \<and> never_oversold (sort_key transaction_date [F1, F2, F3, SF])
   \<and> py_sum fl (map quantity [F1, F2, F3]) = quantity SF
   \<and> (\<exists>pvs rem.
         all_pv_loop fl (sort_key transaction_date [F1, F2, F3, SF]) ([], []) = Inr (pvs, rem)
       \<and> calculate_all_realized_pv fl [F1, F2, F3, SF] = Inr pvs
       \<and> map quantity rem = [1 / 2 ^ 52]
       \<and> map quantity_sold pvs = [quantity SF]
       \<and> fl (py_sum fl (map quantity rem) + py_sum fl (map quantity_sold pvs))
           \<noteq> py_sum fl (map quantity [F1, F2, F3])
       \<and> sum_list (map quantity rem) + sum_list (map quantity_sold pvs)
           \<noteq> buy_total [F1, F2, F3, SF])"
proof -
  have pos: "list_all (\<lambda>t. quantity t > 0) [F1, F2, F3, SF]"
    by (simp add: float_quantities)
  have cov: "never_oversold (sort_key transaction_date [F1, F2, F3, SF])"
    unfolding float_order
    by (simp add: never_oversold_def sell_total_def buy_total_def float_types
          float_quantities upt_rec)
  have buys: "py_sum fl (map quantity [F1, F2, F3]) = quantity SF"
    by (simp add: py_sum_def float_quantities fl_eval)
  obtain pv where pv: "calculate_realized_pv_fifo fl [F1, F2, F3] SF = Inr pv"
    "quantity_sold pv = quantity SF"
    using float_realized by auto
  obtain rem where rem: "update_remaining_buys fl [F1, F2, F3] (quantity SF) = Inr rem"
    "map quantity rem = [1 / 2 ^ 52]"
    using float_update by auto
  have run: "all_pv_loop fl (sort_key transaction_date [F1, F2, F3, SF]) ([], []) = Inr ([pv], rem)"
    unfolding float_order by (simp add: float_types pv(1) rem(1))
  have res: "calculate_all_realized_pv fl [F1, F2, F3, SF] = Inr [pv]"
    unfolding calculate_all_realized_pv_def run by simp
  have f: "fl (py_sum fl (map quantity rem) + py_sum fl (map quantity_sold [pv]))
           \<noteq> py_sum fl (map quantity [F1, F2, F3])"
    unfolding buys by (simp add: rem(2) pv(2) py_sum_def float_quantities fl_eval)
  have e: "sum_list (map quantity rem) + sum_list (map quantity_sold [pv])
           \<noteq> buy_total [F1, F2, F3, SF]"
    by (simp add: rem(2) pv(2) buy_total_def float_types float_quantities)
  have s: "map quantity_sold [pv] = [quantity SF]" by (simp add: pv(2))
  from pos cov buys run res rem(2) s f e show ?thesis
    by (intro conjI exI[of _ "[pv]"] exI[of _ rem])
qed

text \<open>The float sum of the remaining quantity and the quantity sold is 3.1000000000000005.\<close>

lemma float_sum_check:
  "fl (1 / 2 ^ 52 + quantity SF) = 6980579422424270 / 2 ^ 51"
  by (simp add: float_quantities fl_eval)

text \<open>On the same transactions the arithmetic of the reals sells everything.\<close>

lemma exact_update_sells_all:
  "update_remaining_buys (\<lambda>x. x) [F1, F2, F3] (quantity SF) = Inr []"
  by (simp add: update_remaining_buys_def float_quantities)

section \<open>The ledger of the database manager\<close>

lemma sell_loop_stop: "q \<le> 0 \<or> lots = [] \<Longrightarrow> sell_loop (q, lots) = Inr (q, lots)"
  by (auto simp: sell_loop.simps)

lemma sell_loop_pop:
  "q > 0 \<Longrightarrow> lot_quantity lot \<le> q + 1 / 10 ^ 9 \<Longrightarrow>
   sell_loop (q, lot # rest) = sell_loop (q - lot_quantity lot, rest)"
  by (simp add: sell_loop.simps[of q "lot # rest"])

lemma sell_loop_partial:
  "q > 0 \<Longrightarrow> \<not> lot_quantity lot \<le> q + 1 / 10 ^ 9 \<Longrightarrow>
   sell_loop (q, lot # rest) =
     Inr (0, lot\<lparr>lot_cost := lot_cost lot - lot_cost lot * (q / lot_quantity lot),
                 lot_quantity := lot_quantity lot - q\<rparr> # rest)"
proof -
  assume a: "q > 0" "\<not> lot_quantity lot \<le> q + 1 / 10 ^ 9"
  then have nz: "lot_quantity lot \<noteq> 0" by auto
  show ?thesis
    using a nz by (simp add: sell_loop.simps[of q "lot # rest"] py_div_def sell_loop_stop)
qed

lemma sell_loop_total: "\<exists>q' lots'. sell_loop (q, lots) = Inr (q', lots')"
proof (induction lots arbitrary: q)
  case Nil
  then show ?case by (simp add: sell_loop_stop)
next
  case (Cons lot rest)
  show ?case
  proof (cases "q > 0")
    case False
    then show ?thesis by (simp add: sell_loop_stop)
  next
    case True
    show ?thesis
    proof (cases "lot_quantity lot \<le> q + 1 / 10 ^ 9")
      case True
      with \<open>q > 0\<close> Cons.IH[of "q - lot_quantity lot"] show ?thesis by (simp add: sell_loop_pop)
    next
      case False
      with \<open>q > 0\<close> show ?thesis by (simp add: sell_loop_partial)
    qed
  qed
qed

lemma sell_loop_nonneg:
  "list_all nonneg_lot lots \<Longrightarrow> sell_loop (q, lots) = Inr (q', lots') \<Longrightarrow> list_all nonneg_lot lots'"
proof (induction lots arbitrary: q)
  case Nil
  then show ?case by (simp add: sell_loop_stop)
next
  case (Cons lot rest)
  have l: "nonneg_lot lot" and r: "list_all nonneg_lot rest" using Cons.prems(1) by simp_all
  show ?case
  proof (cases "q > 0")
    case False
    then show ?thesis using Cons.prems by (auto simp: sell_loop_stop)
  next
    case True
    show ?thesis
    proof (cases "lot_quantity lot \<le> q + 1 / 10 ^ 9")
      case True
      with \<open>q > 0\<close> Cons.prems(2) have "sell_loop (q - lot_quantity lot, rest) = Inr (q', lots')"
        by (simp add: sell_loop_pop)
      from Cons.IH[OF r this] show ?thesis .
    next
      case False
      then have big: "lot_quantity lot > q" by simp
      have "0 \<le> lot_cost lot * (1 - q / lot_quantity lot)"
        using l big True by (intro mult_nonneg_nonneg) (auto simp: nonneg_lot_def)
      then have "0 \<le> lot_cost lot - lot_cost lot * (q / lot_quantity lot)"
        by (simp add: algebra_simps)
      then have "nonneg_lot (lot\<lparr>lot_cost := lot_cost lot - lot_cost lot * (q / lot_quantity lot),
                 lot_quantity := lot_quantity lot - q\<rparr>)"
        using big by (simp add: nonneg_lot_def)
      with False \<open>q > 0\<close> Cons.prems(2) r show ?thesis
        by (auto simp: sell_loop_partial)
    qed
  qed
qed

lemma sell_loop_oversell:
  "list_all nonneg_lot lots \<Longrightarrow> q > sum_list (map lot_quantity lots) \<Longrightarrow>
   \<exists>q'. sell_loop (q, lots) = Inr (q', [])"
proof (induction lots arbitrary: q)
  case Nil
  then show ?case by (simp add: sell_loop_stop)
next
  case (Cons lot rest)
  have l: "nonneg_lot lot" and r: "list_all nonneg_lot rest" using Cons.prems(1) by simp_all
  have nn: "0 \<le> sum_list (map lot_quantity rest)"
    using r by (induction rest) (auto simp: nonneg_lot_def)
  have lq: "0 \<le> lot_quantity lot" using l by (simp add: nonneg_lot_def)
  have "q > 0" "lot_quantity lot \<le> q + 1 / 10 ^ 9" "q - lot_quantity lot > sum_list (map lot_quantity rest)"
    using Cons.prems(2) nn lq by auto
  with Cons.IH[OF r, of "q - lot_quantity lot"] show ?case by (simp add: sell_loop_pop)
qed

lemma sell_loop_shrinks:
  "list_all (\<lambda>l. lot_cost l \<ge> 0) lots \<Longrightarrow>
   \<exists>q' lots' k. sell_loop (q, lots) = Inr (q', lots') \<and> list_all2 shrunk_lot (drop k lots) lots'"
proof (induction lots arbitrary: q)
  case Nil
  then show ?case by (simp add: sell_loop_stop)
next
  case (Cons lot rest)
  have c: "lot_cost lot \<ge> 0" and r: "list_all (\<lambda>l. lot_cost l \<ge> 0) rest"
    using Cons.prems by simp_all
  have sl: "shrunk_lot x x" for x by (simp add: shrunk_lot_def)
  have refl: "list_all2 shrunk_lot xs xs" for xs
    by (simp add: list_all2_same sl)
  show ?case
  proof (cases "q > 0")
    case False
    then have "sell_loop (q, lot # rest) = Inr (q, lot # rest)" by (simp add: sell_loop_stop)
    moreover have "list_all2 shrunk_lot (drop 0 (lot # rest)) (lot # rest)"
      using refl[of "lot # rest"] by simp
    ultimately show ?thesis by blast
  next
    case True
    show ?thesis
    proof (cases "lot_quantity lot \<le> q + 1 / 10 ^ 9")
      case True
      from Cons.IH[OF r, of "q - lot_quantity lot"] obtain q' lots' k where
        "sell_loop (q - lot_quantity lot, rest) = Inr (q', lots')"
        "list_all2 shrunk_lot (drop k rest) lots'" by blast
      then have "sell_loop (q, lot # rest) = Inr (q', lots')"
        "list_all2 shrunk_lot (drop (Suc k) (lot # rest)) lots'"
        using True \<open>q > 0\<close> by (simp_all add: sell_loop_pop)
      then show ?thesis by blast
    next
      case False
      define lot' where "lot' = lot\<lparr>lot_cost := lot_cost lot - lot_cost lot * (q / lot_quantity lot),
                 lot_quantity := lot_quantity lot - q\<rparr>"
      have big: "lot_quantity lot > q" using False by simp
      have "0 \<le> lot_cost lot * (q / lot_quantity lot)"
        using c big True by (intro mult_nonneg_nonneg) auto
      moreover have "(lot_cost lot - lot_cost lot * (q / lot_quantity lot)) / (lot_quantity lot - q)
          = lot_cost lot / lot_quantity lot"
        using big True by (simp add: field_simps)
      ultimately have "shrunk_lot lot lot'"
        using True by (simp add: shrunk_lot_def lot'_def)
      then have "list_all2 shrunk_lot (drop 0 (lot # rest)) (lot' # rest)" using refl[of rest] by simp
      moreover have "sell_loop (q, lot # rest) = Inr (0, lot' # rest)"
        using False True by (simp add: sell_loop_partial lot'_def)
      ultimately show ?thesis by blast
    qed
  qed
qed

lemma position_loop_total: "\<exists>lots'. position_loop txs lots = Inr lots'"
proof (induction txs arbitrary: lots)
  case Nil
  then show ?case by simp
next
  case (Cons tx txs)
  obtain q' l' where "sell_loop (quantity tx, lots) = Inr (q', l')"
    using sell_loop_total by blast
  with Cons.IH show ?case by simp
qed

lemma position_loop_nonneg:
  "buys_nonneg txs \<Longrightarrow> list_all nonneg_lot lots \<Longrightarrow> position_loop txs lots = Inr lots' \<Longrightarrow>
   list_all nonneg_lot lots'"
proof (induction txs arbitrary: lots)
  case Nil
  then show ?case by simp
next
  case (Cons tx txs)
  consider (buy) "transaction_type tx = ''ACHAT''"
    | (sell) "transaction_type tx = ''VENTE''"
    | (other) "transaction_type tx \<noteq> ''ACHAT''" "transaction_type tx \<noteq> ''VENTE''"
    by blast
  then show ?case
  proof cases
    case buy
    have r: "buys_nonneg txs" and t: "quantity tx \<ge> 0" "total_cost tx \<ge> 0"
      using Cons.prems(1) buy by (simp_all add: buys_nonneg_def)
    have "nonneg_lot \<lparr>lot_quantity = quantity tx, lot_cost = total_cost tx\<rparr>"
      using t by (simp add: nonneg_lot_def)
    then have "list_all nonneg_lot (lots @ [\<lparr>lot_quantity = quantity tx, lot_cost = total_cost tx\<rparr>])"
      using Cons.prems(2) by simp
    from Cons.IH[OF r this] Cons.prems(3) buy show ?thesis by simp
  next
    case sell
    have r: "buys_nonneg txs" using Cons.prems(1) sell by (simp add: buys_nonneg_def)
    obtain q' l' where s: "sell_loop (quantity tx, lots) = Inr (q', l')"
      using sell_loop_total by blast
    have "list_all nonneg_lot l'" using sell_loop_nonneg[OF Cons.prems(2) s] .
    from Cons.IH[OF r this] Cons.prems(3) sell s show ?thesis by simp
  next
    case other
    have r: "buys_nonneg txs" using Cons.prems(1) other by (simp add: buys_nonneg_def)
    from Cons.IH[OF r Cons.prems(2)] Cons.prems(3) other show ?thesis by simp
  qed
qed

lemma position_loop_append:
  "position_loop txs lots = Inr lots1 \<Longrightarrow>
   position_loop (txs @ txs') lots = position_loop txs' lots1"
proof (induction txs arbitrary: lots)
  case Nil
  then show ?case by simp
next
  case (Cons tx txs)
  then show ?case by (auto split: if_splits sum.splits)
qed

lemma sum_nonneg_lots:
  "list_all nonneg_lot lots \<Longrightarrow>
   0 \<le> sum_list (map lot_quantity lots) \<and> 0 \<le> sum_list (map lot_cost lots)"
  by (induction lots) (auto simp: nonneg_lot_def)

text \<open>
  C9. For every transaction list the replay of \<open>_calculate_position_cost\<close> returns a result:
  no error is raised and the loops end. When the buys have quantities and costs that are
  not negative, every remaining lot has a quantity and a cost that are not negative, and so
  have the totals. A sale of more than the quantity held leaves no lot: the totals are 0.
\<close>

theorem C9_replay_total:
  "\<exists>lots. position_loop txs [] = Inr lots
     \<and> calculate_position_cost txs =
         Inr (sum_list (map lot_quantity lots), sum_list (map lot_cost lots))
     \<and> (buys_nonneg txs \<longrightarrow>
          list_all nonneg_lot lots
          \<and> 0 \<le> sum_list (map lot_quantity lots) \<and> 0 \<le> sum_list (map lot_cost lots))
     \<and> (buys_nonneg txs \<and> transaction_type s = ''VENTE''
          \<and> quantity s > sum_list (map lot_quantity lots) \<longrightarrow>
          position_loop (txs @ [s]) [] = Inr []
          \<and> calculate_position_cost (txs @ [s]) = Inr (0, 0))"
proof -
  obtain lots where l: "position_loop txs [] = Inr lots"
    using position_loop_total by blast
  have c: "calculate_position_cost txs =
         Inr (sum_list (map lot_quantity lots), sum_list (map lot_cost lots))"
    using l by (simp add: calculate_position_cost_def)
  have nn: "list_all nonneg_lot lots" if "buys_nonneg txs"
    using position_loop_nonneg[OF that _ l] by simp
  have over: "position_loop (txs @ [s]) [] = Inr []
          \<and> calculate_position_cost (txs @ [s]) = Inr (0, 0)"
    if h: "buys_nonneg txs \<and> transaction_type s = ''VENTE''
          \<and> quantity s > sum_list (map lot_quantity lots)"
  proof -
    from h nn have "list_all nonneg_lot lots" by simp
    from sell_loop_oversell[OF this, of "quantity s"] h obtain q' where
      "sell_loop (quantity s, lots) = Inr (q', [])" by blast
    then have "position_loop [s] lots = Inr []" using h by simp
    then have "position_loop (txs @ [s]) [] = Inr []"
      using position_loop_append[OF l, of "[s]"] by simp
    then show ?thesis by (simp add: calculate_position_cost_def)
  qed
  from l c nn over sum_nonneg_lots show ?thesis by blast
qed

theorem C9_replay_total_witness:
  "buys_nonneg [B1, B2] \<and> transaction_type S20 = ''VENTE''
   \<and> calculate_position_cost [B1, B2] = Inr (15, 2302)
   \<and> quantity S20 > 15
   \<and> calculate_position_cost ([B1, B2] @ [S20]) = Inr (0, 0)"
proof -
  have h: "buys_nonneg [B1, B2]" "transaction_type S20 = ''VENTE''"
    by (simp_all add: buys_nonneg_def B1_def B2_def S20_def Transaction_init_def)
  have e: "position_loop [B1, B2] [] = Inr [L1, L2]"
    by (simp add: B1_def B2_def Transaction_init_def L1_def L2_def)
  have q: "quantity S20 > 15" by (simp add: S20_def Transaction_init_def)
  from C9_replay_total[of "[B1, B2]" S20] obtain lots where
    l: "position_loop [B1, B2] [] = Inr lots"
       "calculate_position_cost [B1, B2] =
         Inr (sum_list (map lot_quantity lots), sum_list (map lot_cost lots))"
       "buys_nonneg [B1, B2] \<and> transaction_type S20 = ''VENTE''
          \<and> quantity S20 > sum_list (map lot_quantity lots) \<longrightarrow>
          position_loop ([B1, B2] @ [S20]) [] = Inr []
          \<and> calculate_position_cost ([B1, B2] @ [S20]) = Inr (0, 0)"
    by blast
  have lots: "lots = [L1, L2]" using l(1) e by simp
  have s: "sum_list (map lot_quantity lots) = 15" "sum_list (map lot_cost lots) = 2302"
    by (simp_all add: lots L1_def L2_def)
  from l(2,3) h q s show ?thesis by simp
qed

section \<open>Partial consumption of a lot\<close>

lemma urb_loop_keep: "r \<le> 0 \<Longrightarrow> urb_loop (\<lambda>x. x) lots (rem, r) = Inr (rem @ lots, r)"
  by (induction lots arbitrary: rem) simp_all

lemma urb_loop_partial:
  assumes "transaction_type b = ''ACHAT''" "total_cost b \<noteq> 0" "0 < r" "r < quantity b"
  shows "urb_loop (\<lambda>x. x) (b # rest) (rem, r) =
     Inr (rem @ b\<lparr>quantity := quantity b - r,
                   total_cost := total_cost b * (quantity b - r) / quantity b,
                   fees := fees b * (quantity b - r) / quantity b\<rparr> # rest, 0)"
proof -
  have "total_cost b * (quantity b - r) / quantity b \<noteq> 0" using assms by simp
  then show ?thesis
    using assms by (simp add: py_div_def post_init_def urb_loop_keep Let_def)
qed

lemma shrunk_tx_refl: "list_all2 shrunk_tx xs xs"
  by (simp add: list_all2_same shrunk_tx_def)

lemma urb_loop_shrinks:
  "list_all costly_lot lots \<Longrightarrow>
   \<exists>ys r' k. urb_loop (\<lambda>x. x) lots (rem, r) = Inr (rem @ ys, r') \<and> list_all2 shrunk_tx (drop k lots) ys"
proof (induction lots arbitrary: rem r)
  case Nil
  then show ?case by simp
next
  case (Cons b lots)
  have cb: "costly_lot b" and rest: "list_all costly_lot lots" using Cons.prems by simp_all
  have b: "quantity b > 0" "transaction_type b = ''ACHAT''" "total_cost b > 0"
    using cb by (simp_all add: costly_lot_def open_lot_def)
  consider (keep) "r \<le> 0" | (part) "r > 0" "quantity b > r" | (drop) "r > 0" "quantity b \<le> r"
    by linarith
  then show ?case
  proof cases
    case keep
    have "urb_loop (\<lambda>x. x) (b # lots) (rem, r) = Inr (rem @ (b # lots), r)"
      using keep by (rule urb_loop_keep)
    moreover have "list_all2 shrunk_tx (drop 0 (b # lots)) (b # lots)"
      using shrunk_tx_refl[of "b # lots"] by simp
    ultimately show ?thesis by blast
  next
    case part
    define u where "u = b\<lparr>quantity := quantity b - r,
                   total_cost := total_cost b * (quantity b - r) / quantity b,
                   fees := fees b * (quantity b - r) / quantity b\<rparr>"
    have e: "urb_loop (\<lambda>x. x) (b # lots) (rem, r) = Inr (rem @ u # lots, 0)"
      unfolding u_def using b part by (intro urb_loop_partial) auto
    have "total_cost b * ((quantity b - r) / quantity b) \<le> total_cost b * 1"
      using b part by (intro mult_left_mono) auto
    then have "shrunk_tx b u"
      using b part by (simp add: shrunk_tx_def u_def)
    then have "list_all2 shrunk_tx (drop 0 (b # lots)) (u # lots)"
      using shrunk_tx_refl[of lots] by simp
    with e show ?thesis by blast
  next
    case drop
    from Cons.IH[OF rest, of rem "r - quantity b"] obtain ys r' k where
      "urb_loop (\<lambda>x. x) lots (rem, r - quantity b) = Inr (rem @ ys, r')"
      "list_all2 shrunk_tx (drop k lots) ys" by blast
    then have "urb_loop (\<lambda>x. x) (b # lots) (rem, r) = Inr (rem @ ys, r')"
      "list_all2 shrunk_tx (drop (Suc k) (b # lots)) ys"
      using drop by simp_all
    then show ?thesis by blast
  qed
qed

text \<open>A buy changes no existing lot: it is appended to the ledger.\<close>

lemma buy_appends:
  "transaction_type tx = ''ACHAT'' \<Longrightarrow>
   position_loop [tx] lots = Inr (lots @ [\<lparr>lot_quantity = quantity tx, lot_cost = total_cost tx\<rparr>])
   \<and> all_pv_loop (\<lambda>x. x) [tx] (pvs, rem) = Inr (pvs, rem @ [tx])"
  by simp

text \<open>
  C8. A sale that consumes a lot in part reduces its quantity and its cost by the same
  factor, so that the cost per share of the surviving lot is that of the original lot, in
  the calculator (for a buy with a cost other than 0) and in the database manager (beyond
  the tolerance of 1e-9). After any sale, every lot of either ledger is a lot from before
  the sale, with a quantity and a cost that are not larger and the same cost per share
  (for lots whose cost is positive, respectively not negative).
\<close>

theorem C8_cost_per_share:
  "(transaction_type b = ''ACHAT'' \<and> total_cost b \<noteq> 0 \<and> 0 < r \<and> r < quantity b \<longrightarrow>
      (\<exists>b'. update_remaining_buys (\<lambda>x. x) (b # rest) r = Inr (b' # rest)
          \<and> quantity b' = quantity b * ((quantity b - r) / quantity b)
          \<and> total_cost b' = total_cost b * ((quantity b - r) / quantity b)
          \<and> total_cost b' / quantity b' = total_cost b / quantity b))
   \<and> (0 < r \<and> r + 1 / 10 ^ 9 < lot_quantity l \<longrightarrow>
      (\<exists>l'. sell_loop (r, l # lrest) = Inr (0, l' # lrest)
          \<and> lot_quantity l' = lot_quantity l * ((lot_quantity l - r) / lot_quantity l)
          \<and> lot_cost l' = lot_cost l * ((lot_quantity l - r) / lot_quantity l)
          \<and> lot_cost l' / lot_quantity l' = lot_cost l / lot_quantity l))
   \<and> (list_all costly_lot lots \<longrightarrow>
      (\<exists>lots' k. update_remaining_buys (\<lambda>x. x) lots s = Inr lots'
          \<and> list_all2 shrunk_tx (drop k lots) lots'))
   \<and> (list_all (\<lambda>l. lot_cost l \<ge> 0) dlots \<longrightarrow>
      (\<exists>q' lots' k. sell_loop (s, dlots) = Inr (q', lots')
          \<and> list_all2 shrunk_lot (drop k dlots) lots'))"
proof (intro conjI impI)
  assume a: "transaction_type b = ''ACHAT'' \<and> total_cost b \<noteq> 0 \<and> 0 < r \<and> r < quantity b"
  define u where "u = b\<lparr>quantity := quantity b - r,
                   total_cost := total_cost b * (quantity b - r) / quantity b,
                   fees := fees b * (quantity b - r) / quantity b\<rparr>"
  have "urb_loop (\<lambda>x. x) (b # rest) ([], r) = Inr ([] @ u # rest, 0)"
    unfolding u_def using a by (intro urb_loop_partial) auto
  then have "update_remaining_buys (\<lambda>x. x) (b # rest) r = Inr (u # rest)"
    by (simp add: update_remaining_buys_def)
  moreover have "quantity u = quantity b * ((quantity b - r) / quantity b)"
    "total_cost u = total_cost b * ((quantity b - r) / quantity b)"
    "total_cost u / quantity u = total_cost b / quantity b"
    using a by (simp_all add: u_def)
  ultimately show "\<exists>b'. update_remaining_buys (\<lambda>x. x) (b # rest) r = Inr (b' # rest)
          \<and> quantity b' = quantity b * ((quantity b - r) / quantity b)
          \<and> total_cost b' = total_cost b * ((quantity b - r) / quantity b)
          \<and> total_cost b' / quantity b' = total_cost b / quantity b"
    by blast
next
  assume a: "0 < r \<and> r + 1 / 10 ^ 9 < lot_quantity l"
  define l' where "l' = l\<lparr>lot_cost := lot_cost l - lot_cost l * (r / lot_quantity l),
                 lot_quantity := lot_quantity l - r\<rparr>"
  have big: "r < lot_quantity l" "lot_quantity l \<noteq> 0" using a by auto
  have "sell_loop (r, l # lrest) = Inr (0, l' # lrest)"
    unfolding l'_def using a by (intro sell_loop_partial) auto
  moreover have "lot_quantity l' = lot_quantity l * ((lot_quantity l - r) / lot_quantity l)"
    using big by (simp add: l'_def)
  moreover have "lot_cost l' = lot_cost l * ((lot_quantity l - r) / lot_quantity l)"
    using big by (simp add: l'_def field_simps)
  moreover have "lot_cost l' / lot_quantity l' = lot_cost l / lot_quantity l"
    using big by (simp add: l'_def field_simps)
  ultimately show "\<exists>l'. sell_loop (r, l # lrest) = Inr (0, l' # lrest)
          \<and> lot_quantity l' = lot_quantity l * ((lot_quantity l - r) / lot_quantity l)
          \<and> lot_cost l' = lot_cost l * ((lot_quantity l - r) / lot_quantity l)
          \<and> lot_cost l' / lot_quantity l' = lot_cost l / lot_quantity l"
    by blast
next
  assume "list_all costly_lot lots"
  from urb_loop_shrinks[OF this, of "[]" s]
  show "\<exists>lots' k. update_remaining_buys (\<lambda>x. x) lots s = Inr lots'
          \<and> list_all2 shrunk_tx (drop k lots) lots'"
    by (auto simp: update_remaining_buys_def)
next
  assume "list_all (\<lambda>l. lot_cost l \<ge> 0) dlots"
  from sell_loop_shrinks[OF this, of s]
  show "\<exists>q' lots' k. sell_loop (s, dlots) = Inr (q', lots')
          \<and> list_all2 shrunk_lot (drop k dlots) lots'" .
qed

theorem C8_cost_per_share_witness:
  "(transaction_type B1 = ''ACHAT'' \<and> total_cost B1 \<noteq> 0 \<and> (0::real) < 4 \<and> 4 < quantity B1)
   \<and> ((0::real) < 4 \<and> 4 + 1 / 10 ^ 9 < lot_quantity L1)
   \<and> list_all costly_lot [B1, B2]
   \<and> list_all (\<lambda>l. lot_cost l \<ge> 0) [L1, L2]
   \<and> (\<exists>b'. update_remaining_buys (\<lambda>x. x) [B1, B2] 4 = Inr [b', B2]
          \<and> quantity b' = 6 \<and> total_cost b' = 900.6
          \<and> total_cost b' / quantity b' = total_cost B1 / quantity B1)
   \<and> (\<exists>l'. sell_loop (4, [L1, L2]) = Inr (0, [l', L2])
          \<and> lot_quantity l' = 6 \<and> lot_cost l' = 900.6
          \<and> lot_cost l' / lot_quantity l' = lot_cost L1 / lot_quantity L1)
   \<and> (\<exists>lots' k. update_remaining_buys (\<lambda>x. x) [B1, B2] 12 = Inr lots'
          \<and> list_all2 shrunk_tx (drop k [B1, B2]) lots')
   \<and> (\<exists>q' lots' k. sell_loop (12, [L1, L2]) = Inr (q', lots')
          \<and> list_all2 shrunk_lot (drop k [L1, L2]) lots')"
proof -
  have h1: "transaction_type B1 = ''ACHAT'' \<and> total_cost B1 \<noteq> 0 \<and> (0::real) < 4 \<and> 4 < quantity B1"
    by (simp add: B1_def Transaction_init_def)
  have h2: "(0::real) < 4 \<and> 4 + 1 / 10 ^ 9 < lot_quantity L1"
    by (simp add: L1_def)
  have h3: "list_all costly_lot [B1, B2]"
    by (simp add: costly_lot_def open_lot_def B1_def B2_def Transaction_init_def)
  have h4: "list_all (\<lambda>l. lot_cost l \<ge> 0) [L1, L2]"
    by (simp add: L1_def L2_def)
  note t = C8_cost_per_share[of B1 4 "[B2]" L1 "[L2]" "[B1, B2]" 12 "[L1, L2]"]
  have q: "quantity B1 = 10" "total_cost B1 = 1501" "lot_quantity L1 = 10" "lot_cost L1 = 1501"
    by (simp_all add: B1_def Transaction_init_def L1_def)
  from t h1 have c1: "\<exists>b'. update_remaining_buys (\<lambda>x. x) [B1, B2] 4 = Inr [b', B2]
          \<and> quantity b' = 6 \<and> total_cost b' = 900.6
          \<and> total_cost b' / quantity b' = total_cost B1 / quantity B1"
    by (simp add: q)
  from t h2 have c2: "\<exists>l'. sell_loop (4, [L1, L2]) = Inr (0, [l', L2])
          \<and> lot_quantity l' = 6 \<and> lot_cost l' = 900.6
          \<and> lot_cost l' / lot_quantity l' = lot_cost L1 / lot_quantity L1"
    by (simp add: q)
  from t h3 have c3: "\<exists>lots' k. update_remaining_buys (\<lambda>x. x) [B1, B2] 12 = Inr lots'
          \<and> list_all2 shrunk_tx (drop k [B1, B2]) lots'"
    by blast
  from t h4 have c4: "\<exists>q' lots' k. sell_loop (12, [L1, L2]) = Inr (q', lots')
          \<and> list_all2 shrunk_lot (drop k [L1, L2]) lots'"
    by blast
  from h1 h2 h3 h4 c1 c2 c3 c4 show ?thesis by blast
qed

end
